theory Spec2Isabelle
  imports Complex_Main "HOL-Library.AList"
begin

section \<open>The benchmark harness \<^verbatim>\<open>analysis/benchmark.py\<close>\<close>

text \<open>
  The harness is a Python script: import guards for the optional libraries, the shared
  input document \<^verbatim>\<open>raw_data\<close>, the timing primitive \<^verbatim>\<open>run\<close>, the cell formatter
  \<^verbatim>\<open>format_res\<close>, the dictionary \<^verbatim>\<open>instances\<close> of long-lived objects, the registry
  \<^verbatim>\<open>libs\<close> and the main loop that prints one row per implementation.

  The embedding makes explicit what the script leaves to the interpreter: exceptions are
  values of a sum type, objects live in a heap addressed by natural numbers, the timed
  statements (strings handed to \<^verbatim>\<open>timeit\<close>) are abstract syntax, and the script's output is
  a list of printed lines.
\<close>

subsection \<open>Floats and the report formatter\<close>

text \<open>
  \<^verbatim>\<open>timeit\<close> returns the difference of two readings of \<^verbatim>\<open>time.perf_counter\<close>, a finite
  double. A finite double is a sign, a mantissa and a binary exponent; its exact value
  \<open>float_value\<close> is \<open>mantissa * 2 ^ exponent\<close>, negated when the sign is set.
\<close>

datatype pyfloat = PyFloat (negative: bool) (mantissa: nat) (exponent: int)


text \<open>
  The format specification \<^verbatim>\<open>.5f\<close> rounds the exact value to five decimals, ties to
  even. \<open>scaled5\<close> is that rounded value times \<open>10 ^ 5\<close>.
\<close>

definition round_half_even :: "nat \<Rightarrow> nat \<Rightarrow> nat" where
  "round_half_even q d =
     (let n = q div d; r = q mod d
      in if d < 2 * r \<or> (2 * r = d \<and> odd n) then n + 1 else n)"

definition scaled5 :: "pyfloat \<Rightarrow> nat" where
  "scaled5 x =
     (if 0 \<le> exponent x then mantissa x * 2 ^ nat (exponent x) * 100000
      else round_half_even (mantissa x * 100000) (2 ^ nat (- exponent x)))"

definition digit_char :: "nat \<Rightarrow> char" where
  "digit_char d = ''0123456789'' ! (d mod 10)"

fun digits :: "nat \<Rightarrow> string" where
  "digits n = (if n < 10 then [digit_char n] else digits (n div 10) @ [digit_char (n mod 10)])"

declare digits.simps [simp del]

definition frac5 :: "nat \<Rightarrow> string" where
  "frac5 n = map (\<lambda>k. digit_char (n div 10 ^ k)) [4, 3, 2, 1, 0]"

definition fixed5 :: "pyfloat \<Rightarrow> string" where
  "fixed5 x =
     (let n = scaled5 x
      in (if negative x then ''-'' else '''') @ digits (n div 100000) @ ''.'' @ frac5 (n mod 100000))"

text \<open>\<^verbatim>\<open>def format_res(val): return f"{val:.5f}" if val is not None else "N/A"\<close>\<close>

definition format_res :: "pyfloat option \<Rightarrow> string" where
  "format_res val = (case val of Some v \<Rightarrow> fixed5 v | None \<Rightarrow> ''N/A'')"

text \<open>The format specification \<^verbatim>\<open><n\<close>: pad on the right with spaces up to width \<open>n\<close>.\<close>

definition ljust :: "nat \<Rightarrow> string \<Rightarrow> string" where
  "ljust n s = s @ replicate (n - length s) (CHR '' '')"

text \<open>Joining the cells of a line with \<^verbatim>\<open>" | "\<close>, as the two f-strings of the script do.\<close>

fun join_cells :: "string list \<Rightarrow> string" where
  "join_cells [] = []"
| "join_cells [c] = c"
| "join_cells (c # cs) = c @ '' | '' @ join_cells cs"

definition header_line :: string where
  "header_line =
     join_cells [ljust 12 ''Library'', ljust 8 ''Init'', ljust 8 ''Read(K)'',
                 ljust 8 ''Read(D)'', ljust 8 ''Write(K)'', ljust 8 ''Write(D)'']"






subsection \<open>Exceptions, values and the heap\<close>

text \<open>
  The built-in exception hierarchy has \<^verbatim>\<open>BaseException\<close> at its root; \<^verbatim>\<open>SystemExit\<close>,
  \<^verbatim>\<open>KeyboardInterrupt\<close> and \<^verbatim>\<open>GeneratorExit\<close> derive from it directly, every other
  built-in exception derives from \<^verbatim>\<open>Exception\<close>. \<open>Exception c\<close> is an exception of a
  class named \<open>c\<close> that derives from \<^verbatim>\<open>Exception\<close>.
\<close>

datatype pyexc = SystemExit | KeyboardInterrupt | GeneratorExit | Exception string

text \<open>The test that an \<^verbatim>\<open>except Exception:\<close> clause makes.\<close>

fun isinstance_Exception :: "pyexc \<Rightarrow> bool" where
  "isinstance_Exception (Exception c) = True"
| "isinstance_Exception e = False"

abbreviation NameError :: pyexc where "NameError \<equiv> Exception ''NameError''"
abbreviation TypeError :: pyexc where "TypeError \<equiv> Exception ''TypeError''"
abbreviation KeyError :: pyexc where "KeyError \<equiv> Exception ''KeyError''"
abbreviation AttributeError :: pyexc where "AttributeError \<equiv> Exception ''AttributeError''"
abbreviation SystemError :: pyexc where "SystemError \<equiv> Exception ''SystemError''"

text \<open>
  A value is \<^verbatim>\<open>None\<close>, a boolean, an integer, a class, or a reference to an object of
  the heap. An object has a class and its entries: the items of a mapping, the attributes
  of an \<^verbatim>\<open>attrs\<close> instance. The heap is the list of the objects allocated so far; an
  address is an index into it.
\<close>

datatype pyval = VNone | VBool bool | VInt int | VClass string | VRef nat

datatype pyobj = PyObj (cls: string) (slots: "(string \<times> pyval) list")

type_synonym heap = "pyobj list"

type_synonym 'a result = "(pyexc + 'a) \<times> heap"

definition alloc :: "pyobj \<Rightarrow> heap \<Rightarrow> pyval result" where
  "alloc ob h = (Inr (VRef (length h)), h @ [ob])"

definition lookup_obj :: "heap \<Rightarrow> nat \<Rightarrow> pyobj option" where
  "lookup_obj h a = (if a < length h then Some (h ! a) else None)"

subsection \<open>The environment of a run\<close>

text \<open>
  Modelled from the spec: the benchmarked libraries (\<^verbatim>\<open>lattix\<close>, which is this
  repository's package, and the third-party \<^verbatim>\<open>easydict\<close>, \<^verbatim>\<open>addict\<close>, \<^verbatim>\<open>box\<close>,
  \<^verbatim>\<open>treedict\<close>, \<^verbatim>\<open>dotted_dict\<close>) are not part of the harness. The specification
  gives their interface: a constructor accepting the fixed nested document, that builds an
  instance of its own, isolated from all others; optionally item access; optionally
  attribute access. A collaborator is described by whether its import succeeds, by the
  exception its constructor raises (if it raises), and by the access styles it really
  implements (which the registry may misreport).
\<close>

record collab =
  importable :: bool
  ctor_raises :: "pyexc option"
  item_access :: bool
  attr_access :: bool

text \<open>
  The environment: the collaborators by class name, whether \<^verbatim>\<open>attrs\<close> can be imported,
  the interpreter's version string, and the clock: \<open>elapsed env k\<close> is the duration that
  the \<open>k\<close>-th completed timing measures.
\<close>

record env =
  collabs :: "string \<Rightarrow> collab"
  attrs_importable :: bool
  sys_version :: string
  elapsed :: "nat \<Rightarrow> pyfloat"

subsection \<open>Classes\<close>

definition attrs_classes :: "string list" where
  "attrs_classes = [''AttrsL1'', ''AttrsL2'', ''AttrsL3'']"

text \<open>
  Item access: the built-in \<^verbatim>\<open>dict\<close> has it, the \<^verbatim>\<open>attrs\<close> classes of the script do
  not, a collaborator has it if its library implements it.
\<close>

definition item_capable :: "env \<Rightarrow> string \<Rightarrow> bool" where
  "item_capable env c =
     (if c = ''dict'' then True
      else if c \<in> set attrs_classes then False
      else item_access (collabs env c))"

definition attr_capable :: "env \<Rightarrow> string \<Rightarrow> bool" where
  "attr_capable env c =
     (if c = ''dict'' then False
      else if c \<in> set attrs_classes then True
      else attr_access (collabs env c))"

text \<open>\<^verbatim>\<open>v[k]\<close>\<close>

definition py_getitem :: "env \<Rightarrow> heap \<Rightarrow> pyval \<Rightarrow> string \<Rightarrow> pyexc + pyval" where
  "py_getitem env h v k =
     (case v of
        VRef a \<Rightarrow>
          (case lookup_obj h a of
             None \<Rightarrow> Inl SystemError
           | Some ob \<Rightarrow>
               if item_capable env (cls ob)
               then (case map_of (slots ob) k of Some x \<Rightarrow> Inr x | None \<Rightarrow> Inl KeyError)
               else Inl TypeError)
      | _ \<Rightarrow> Inl TypeError)"

text \<open>\<^verbatim>\<open>v[k] = x\<close>: the entry is replaced in place, or added at the end.\<close>

definition py_setitem :: "env \<Rightarrow> heap \<Rightarrow> pyval \<Rightarrow> string \<Rightarrow> pyval \<Rightarrow> pyexc + heap" where
  "py_setitem env h v k x =
     (case v of
        VRef a \<Rightarrow>
          (case lookup_obj h a of
             None \<Rightarrow> Inl SystemError
           | Some ob \<Rightarrow>
               if item_capable env (cls ob)
               then Inr (h[a := PyObj (cls ob) (AList.update k x (slots ob))])
               else Inl TypeError)
      | _ \<Rightarrow> Inl TypeError)"

text \<open>\<^verbatim>\<open>v.n\<close>\<close>

definition py_getattr :: "env \<Rightarrow> heap \<Rightarrow> pyval \<Rightarrow> string \<Rightarrow> pyexc + pyval" where
  "py_getattr env h v n =
     (case v of
        VRef a \<Rightarrow>
          (case lookup_obj h a of
             None \<Rightarrow> Inl SystemError
           | Some ob \<Rightarrow>
               if attr_capable env (cls ob)
               then (case map_of (slots ob) n of Some x \<Rightarrow> Inr x | None \<Rightarrow> Inl AttributeError)
               else Inl AttributeError)
      | _ \<Rightarrow> Inl AttributeError)"

text \<open>
  \<^verbatim>\<open>v.n = x\<close>. The \<^verbatim>\<open>attrs\<close> classes are slotted (the default of \<^verbatim>\<open>define\<close>): only a
  declared field can be assigned.
\<close>

definition py_setattr :: "env \<Rightarrow> heap \<Rightarrow> pyval \<Rightarrow> string \<Rightarrow> pyval \<Rightarrow> pyexc + heap" where
  "py_setattr env h v n x =
     (case v of
        VRef a \<Rightarrow>
          (case lookup_obj h a of
             None \<Rightarrow> Inl SystemError
           | Some ob \<Rightarrow>
               if attr_capable env (cls ob) \<and>
                  (if cls ob \<in> set attrs_classes then map_of (slots ob) n \<noteq> None else True)
               then Inr (h[a := PyObj (cls ob) (AList.update n x (slots ob))])
               else Inl AttributeError)
      | _ \<Rightarrow> Inl AttributeError)"

subsection \<open>Constructors\<close>

text \<open>The entries of a dictionary built from key-value pairs in order; a later key wins.\<close>

definition dict_of :: "(string \<times> pyval) list \<Rightarrow> (string \<times> pyval) list \<Rightarrow> (string \<times> pyval) list" where
  "dict_of base kvs = fold (\<lambda>(k, v) al. AList.update k v al) kvs base"

text \<open>
  \<^verbatim>\<open>dict(**kwargs)\<close> and \<^verbatim>\<open>dict(mapping, **kwargs)\<close>: a new dictionary with the entries of
  the mapping. The copy is shallow: the values are shared with the argument.
\<close>

definition new_dict :: "pyval list \<Rightarrow> (string \<times> pyval) list \<Rightarrow> heap \<Rightarrow> pyval result" where
  "new_dict args kwargs h =
     (case args of
        [] \<Rightarrow> alloc (PyObj ''dict'' (dict_of [] kwargs)) h
      | [VRef a] \<Rightarrow>
          (case lookup_obj h a of
             Some ob \<Rightarrow>
               if cls ob = ''dict'' then alloc (PyObj ''dict'' (dict_of (slots ob) kwargs)) h
               else (Inl TypeError, h)
           | None \<Rightarrow> (Inl SystemError, h))
      | _ \<Rightarrow> (Inl TypeError, h))"

text \<open>
  The classes that the script declares with \<^verbatim>\<open>attrs.define\<close>, each with one field:
  \<^verbatim>\<open>AttrsL3.level3\<close> defaults to \<^verbatim>\<open>100\<close>, \<^verbatim>\<open>AttrsL2.level2\<close> to a new \<^verbatim>\<open>AttrsL3()\<close>,
  \<^verbatim>\<open>AttrsL1.level1\<close> to a new \<^verbatim>\<open>AttrsL2()\<close>. The generated \<^verbatim>\<open>__init__\<close> takes the field
  by position or by keyword. \<open>bind_field\<close> is the binding of the one parameter:
  \<open>Inr None\<close> when the default applies.
\<close>

definition bind_field :: "string \<Rightarrow> pyval list \<Rightarrow> (string \<times> pyval) list \<Rightarrow> pyexc + pyval option" where
  "bind_field f args kwargs =
     (case (args, kwargs) of
        ([], []) \<Rightarrow> Inr None
      | ([v], []) \<Rightarrow> Inr (Some v)
      | ([], [(k, v)]) \<Rightarrow> if k = f then Inr (Some v) else Inl TypeError
      | _ \<Rightarrow> Inl TypeError)"

definition new_AttrsL3 :: "pyval list \<Rightarrow> (string \<times> pyval) list \<Rightarrow> heap \<Rightarrow> pyval result" where
  "new_AttrsL3 args kwargs h =
     (case bind_field ''level3'' args kwargs of
        Inl e \<Rightarrow> (Inl e, h)
      | Inr (Some v) \<Rightarrow> alloc (PyObj ''AttrsL3'' [(''level3'', v)]) h
      | Inr None \<Rightarrow> alloc (PyObj ''AttrsL3'' [(''level3'', VInt 100)]) h)"

definition new_AttrsL2 :: "pyval list \<Rightarrow> (string \<times> pyval) list \<Rightarrow> heap \<Rightarrow> pyval result" where
  "new_AttrsL2 args kwargs h =
     (case bind_field ''level2'' args kwargs of
        Inl e \<Rightarrow> (Inl e, h)
      | Inr (Some v) \<Rightarrow> alloc (PyObj ''AttrsL2'' [(''level2'', v)]) h
      | Inr None \<Rightarrow>
          (case new_AttrsL3 [] [] h of
             (Inl e, h') \<Rightarrow> (Inl e, h')
           | (Inr v, h') \<Rightarrow> alloc (PyObj ''AttrsL2'' [(''level2'', v)]) h'))"

definition new_AttrsL1 :: "pyval list \<Rightarrow> (string \<times> pyval) list \<Rightarrow> heap \<Rightarrow> pyval result" where
  "new_AttrsL1 args kwargs h =
     (case bind_field ''level1'' args kwargs of
        Inl e \<Rightarrow> (Inl e, h)
      | Inr (Some v) \<Rightarrow> alloc (PyObj ''AttrsL1'' [(''level1'', v)]) h
      | Inr None \<Rightarrow>
          (case new_AttrsL2 [] [] h of
             (Inl e, h') \<Rightarrow> (Inl e, h')
           | (Inr v, h') \<Rightarrow> alloc (PyObj ''AttrsL1'' [(''level1'', v)]) h'))"

text \<open>
  Reading the fixed nested document: the integer at
  \<^verbatim>\<open>d["level1"]["level2"]["level3"]\<close> of a three-level \<^verbatim>\<open>dict\<close>.
\<close>

definition dict_entry :: "heap \<Rightarrow> pyval \<Rightarrow> string \<Rightarrow> pyval option" where
  "dict_entry h v k =
     (case v of
        VRef a \<Rightarrow>
          (case lookup_obj h a of
             Some ob \<Rightarrow> if cls ob = ''dict'' then map_of (slots ob) k else None
           | None \<Rightarrow> None)
      | _ \<Rightarrow> None)"

definition read_document :: "heap \<Rightarrow> pyval \<Rightarrow> int option" where
  "read_document h d =
     (case dict_entry h d ''level1'' of
        Some v1 \<Rightarrow>
          (case dict_entry h v1 ''level2'' of
             Some v2 \<Rightarrow>
               (case dict_entry h v2 ''level3'' of Some (VInt i) \<Rightarrow> Some i | _ \<Rightarrow> None)
           | None \<Rightarrow> None)
      | None \<Rightarrow> None)"

text \<open>
  Three new objects of class \<open>c\<close> holding the document with the integer \<open>i\<close> at the
  innermost level, the innermost allocated first.
\<close>

definition alloc_document :: "string \<Rightarrow> int \<Rightarrow> heap \<Rightarrow> pyval result" where
  "alloc_document c i h =
     (Inr (VRef (length h + 2)),
      h @ [PyObj c [(''level3'', VInt i)],
           PyObj c [(''level2'', VRef (length h))],
           PyObj c [(''level1'', VRef (length h + 1))]])"

text \<open>
  Modelled from the spec: the constructor of a collaborator class (the libraries are not
  part of the harness). It raises what the environment says it raises; otherwise it accepts
  the fixed nested document, with any keyword options, and builds an instance of its own
  that shares no object with the document.
\<close>

definition new_collab :: "env \<Rightarrow> string \<Rightarrow> pyval list \<Rightarrow> (string \<times> pyval) list \<Rightarrow> heap \<Rightarrow> pyval result" where
  "new_collab env c args kwargs h =
     (case ctor_raises (collabs env c) of
        Some e \<Rightarrow> (Inl e, h)
      | None \<Rightarrow>
          (case args of
             [d] \<Rightarrow>
               (case read_document h d of
                  Some i \<Rightarrow> alloc_document c i h
                | None \<Rightarrow> (Inl TypeError, h))
           | _ \<Rightarrow> (Inl TypeError, h)))"

text \<open>\<^verbatim>\<open>f(*args, **kwargs)\<close>: only classes are callable here.\<close>

definition py_call :: "env \<Rightarrow> pyval \<Rightarrow> pyval list \<Rightarrow> (string \<times> pyval) list \<Rightarrow> heap \<Rightarrow> pyval result" where
  "py_call env f args kwargs h =
     (case f of
        VClass c \<Rightarrow>
          if c = ''dict'' then new_dict args kwargs h
          else if c = ''AttrsL3'' then new_AttrsL3 args kwargs h
          else if c = ''AttrsL2'' then new_AttrsL2 args kwargs h
          else if c = ''AttrsL1'' then new_AttrsL1 args kwargs h
          else new_collab env c args kwargs h
      | _ \<Rightarrow> (Inl TypeError, h))"

subsection \<open>Expressions and statements\<close>

text \<open>
  The fragment of Python that the script evaluates at module level and hands to
  \<^verbatim>\<open>timeit\<close> as text: literals, names, subscripts with a string key, attribute
  references, calls with positional and keyword arguments, dictionary displays with string
  keys; expression statements, assignments to a subscript or an attribute, \<^verbatim>\<open>pass\<close> and
  \<^verbatim>\<open>raise\<close>.
\<close>

datatype expr =
    NoneC
  | BoolC bool
  | IntC int
  | Name string
  | Subscript expr string
  | Attribute expr string
  | Call expr "expr list" "(string \<times> expr) list"
  | DictDisplay "(string \<times> expr) list"

datatype stmt =
    Pass
  | Expr expr
  | AssignSubscript expr string expr
  | AssignAttribute expr string expr
  | Raise pyexc

type_synonym globals = "(string \<times> pyval) list"

text \<open>A name is looked up in the globals, then in the built-ins.\<close>

definition builtins :: "string \<Rightarrow> pyval option" where
  "builtins n = (if n = ''dict'' then Some (VClass ''dict'') else None)"

definition lookup_name :: "globals \<Rightarrow> string \<Rightarrow> pyval option" where
  "lookup_name g n = (case map_of g n of Some v \<Rightarrow> Some v | None \<Rightarrow> builtins n)"

text \<open>
  Evaluation is left to right: the callee, the positional arguments, the keyword
  arguments; the values of a display in order.
\<close>

fun eval :: "env \<Rightarrow> globals \<Rightarrow> expr \<Rightarrow> heap \<Rightarrow> pyval result"
  and eval_args :: "env \<Rightarrow> globals \<Rightarrow> expr list \<Rightarrow> heap \<Rightarrow> pyval list result"
  and eval_items :: "env \<Rightarrow> globals \<Rightarrow> (string \<times> expr) list \<Rightarrow> heap \<Rightarrow> (string \<times> pyval) list result"
where
  "eval env g NoneC h = (Inr VNone, h)"
| "eval env g (BoolC b) h = (Inr (VBool b), h)"
| "eval env g (IntC i) h = (Inr (VInt i), h)"
| "eval env g (Name n) h =
     (case lookup_name g n of Some v \<Rightarrow> (Inr v, h) | None \<Rightarrow> (Inl NameError, h))"
| "eval env g (Subscript e k) h =
     (case eval env g e h of
        (Inl x, h') \<Rightarrow> (Inl x, h')
      | (Inr v, h') \<Rightarrow> (py_getitem env h' v k, h'))"
| "eval env g (Attribute e n) h =
     (case eval env g e h of
        (Inl x, h') \<Rightarrow> (Inl x, h')
      | (Inr v, h') \<Rightarrow> (py_getattr env h' v n, h'))"
| "eval env g (Call f args kwargs) h =
     (case eval env g f h of
        (Inl x, h1) \<Rightarrow> (Inl x, h1)
      | (Inr fv, h1) \<Rightarrow>
          (case eval_args env g args h1 of
             (Inl x, h2) \<Rightarrow> (Inl x, h2)
           | (Inr vs, h2) \<Rightarrow>
               (case eval_items env g kwargs h2 of
                  (Inl x, h3) \<Rightarrow> (Inl x, h3)
                | (Inr kvs, h3) \<Rightarrow> py_call env fv vs kvs h3)))"
| "eval env g (DictDisplay items) h =
     (case eval_items env g items h of
        (Inl x, h') \<Rightarrow> (Inl x, h')
      | (Inr kvs, h') \<Rightarrow> alloc (PyObj ''dict'' (dict_of [] kvs)) h')"
| "eval_args env g [] h = (Inr [], h)"
| "eval_args env g (e # es) h =
     (case eval env g e h of
        (Inl x, h') \<Rightarrow> (Inl x, h')
      | (Inr v, h') \<Rightarrow>
          (case eval_args env g es h' of
             (Inl x, h'') \<Rightarrow> (Inl x, h'')
           | (Inr vs, h'') \<Rightarrow> (Inr (v # vs), h'')))"
| "eval_items env g [] h = (Inr [], h)"
| "eval_items env g ((k, e) # kes) h =
     (case eval env g e h of
        (Inl x, h') \<Rightarrow> (Inl x, h')
      | (Inr v, h') \<Rightarrow>
          (case eval_items env g kes h' of
             (Inl x, h'') \<Rightarrow> (Inl x, h'')
           | (Inr kvs, h'') \<Rightarrow> (Inr ((k, v) # kvs), h'')))"

text \<open>
  Executing a statement once. The result is the value of an expression statement
  (\<^verbatim>\<open>None\<close> for the other statements); the interpreter discards it. The objects
  allocated while an expression statement is evaluated are unreachable once its value is
  discarded, and reference counting frees them at once: the heap is cut back to its
  former length. An assignment evaluates its right-hand side first, then the object
  assigned to.
\<close>

fun exec :: "env \<Rightarrow> globals \<Rightarrow> stmt \<Rightarrow> heap \<Rightarrow> pyval result" where
  "exec env g Pass h = (Inr VNone, h)"
| "exec env g (Expr e) h = (case eval env g e h of (r, h') \<Rightarrow> (r, take (length h) h'))"
| "exec env g (AssignSubscript t k e) h =
     (case eval env g e h of
        (Inl x, h1) \<Rightarrow> (Inl x, h1)
      | (Inr v, h1) \<Rightarrow>
          (case eval env g t h1 of
             (Inl x, h2) \<Rightarrow> (Inl x, h2)
           | (Inr tv, h2) \<Rightarrow>
               (case py_setitem env h2 tv k v of
                  Inl x \<Rightarrow> (Inl x, h2)
                | Inr h3 \<Rightarrow> (Inr VNone, h3))))"
| "exec env g (AssignAttribute t n e) h =
     (case eval env g e h of
        (Inl x, h1) \<Rightarrow> (Inl x, h1)
      | (Inr v, h1) \<Rightarrow>
          (case eval env g t h1 of
             (Inl x, h2) \<Rightarrow> (Inl x, h2)
           | (Inr tv, h2) \<Rightarrow>
               (case py_setattr env h2 tv n v of
                  Inl x \<Rightarrow> (Inl x, h2)
                | Inr h3 \<Rightarrow> (Inr VNone, h3))))"
| "exec env g (Raise x) h = (Inl x, h)"

subsection \<open>The timing primitive\<close>

definition ITER_N :: nat where
  "ITER_N = 100000"

text \<open>
  The state of a run: the heap, the number of timings completed so far, the lines
  printed, and a log with one entry for each call of \<^verbatim>\<open>timeit\<close>, in the order of the
  calls: the statement, the globals it ran in, and the distinct values that its
  executions evaluated to. The log is not part of the program; it is what the claims
  about the order of the measurements and about the values read speak of.
\<close>

datatype event = Timed (timed_stmt: stmt) (timed_globals: globals) (observed: "pyval list")

record world =
  heap :: heap
  ticks :: nat
  stdout :: "string list"
  trace :: "event list"

text \<open>
  The loop of \<^verbatim>\<open>timeit\<close>: the statement is executed \<open>n\<close> times in a row; the first
  exception ends the loop.
\<close>

fun repeat :: "nat \<Rightarrow> (heap \<Rightarrow> pyval result) \<Rightarrow> heap \<Rightarrow> pyval list \<Rightarrow> pyexc option \<times> heap \<times> pyval list" where
  "repeat 0 f h obs = (None, h, obs)"
| "repeat (Suc n) f h obs =
     (case f h of
        (Inl x, h') \<Rightarrow> (Some x, h', obs)
      | (Inr v, h') \<Rightarrow> repeat n f h' (List.insert v obs))"

text \<open>
  \<^verbatim>\<open>timeit.Timer(stmt, setup=setup, globals=globals).timeit(number=number)\<close>: the setup
  statement once, then the statement \<open>number\<close> times; the result is the time the loop
  took.
\<close>

definition timeit :: "env \<Rightarrow> stmt \<Rightarrow> stmt \<Rightarrow> globals \<Rightarrow> nat \<Rightarrow> world \<Rightarrow> (pyexc + pyfloat) \<times> world" where
  "timeit env stmt setup g number w =
     (case exec env g setup (heap w) of
        (Inl x, h1) \<Rightarrow> (Inl x, w\<lparr>heap := h1, trace := trace w @ [Timed stmt g []]\<rparr>)
      | (Inr _, h1) \<Rightarrow>
          (case repeat number (exec env g stmt) h1 [] of
             (Some x, h2, obs) \<Rightarrow>
               (Inl x, w\<lparr>heap := h2, trace := trace w @ [Timed stmt g obs]\<rparr>)
           | (None, h2, obs) \<Rightarrow>
               (Inr (elapsed env (ticks w)),
                w\<lparr>heap := h2, ticks := Suc (ticks w), trace := trace w @ [Timed stmt g obs]\<rparr>)))"

text \<open>
  \<^verbatim>\<open>
  def run(stmt, setup="pass", globals=None):
      try:
          t = timeit.Timer(stmt, setup=setup, globals=globals)
          res = t.timeit(number=ITER_N)
          return res
      except Exception:
          return None
  \<close>
  The result \<open>Inl x\<close> is an exception that leaves \<^verbatim>\<open>run\<close>.
\<close>

definition run :: "env \<Rightarrow> stmt \<Rightarrow> stmt \<Rightarrow> globals \<Rightarrow> world \<Rightarrow> (pyexc + pyfloat option) \<times> world" where
  "run env stmt setup g w =
     (case timeit env stmt setup g ITER_N w of
        (Inr res, w') \<Rightarrow> (Inr (Some res), w')
      | (Inl x, w') \<Rightarrow> if isinstance_Exception x then (Inr None, w') else (Inl x, w'))"

subsection \<open>Module level: imports, test data, instances, registry\<close>

text \<open>
  \<^verbatim>\<open>try: from lib import C\<close> / \<^verbatim>\<open>except ImportError: C = None\<close> binds the name to the
  class or to \<^verbatim>\<open>None\<close>.
\<close>

definition try_import :: "env \<Rightarrow> string \<Rightarrow> string \<times> pyval" where
  "try_import env c = (c, if importable (collabs env c) then VClass c else VNone)"

text \<open>
  The globals after the import section (\<^verbatim>\<open>treedict\<close> is imported twice). The guard of
  \<^verbatim>\<open>attrs\<close> declares the three classes when the import succeeds and binds the name
  \<^verbatim>\<open>define\<close> to \<^verbatim>\<open>None\<close> when it fails. (When it succeeds the decorators \<^verbatim>\<open>define\<close>
  and \<^verbatim>\<open>field\<close> are bound too; nothing refers to them afterwards.)
\<close>

definition import_libraries :: "env \<Rightarrow> globals" where
  "import_libraries env =
     map (try_import env)
       [''Lattix'', ''EasyDict'', ''Addict'', ''Box'', ''TreeDict'', ''DottedDict'', ''TreeDict''] @
     (if attrs_importable env
      then [(''AttrsL3'', VClass ''AttrsL3''), (''AttrsL2'', VClass ''AttrsL2''),
            (''AttrsL1'', VClass ''AttrsL1'')]
      else [(''define'', VNone)])"

text \<open>\<^verbatim>\<open>{"level1": {"level2": {"level3": 100}}}\<close>\<close>

definition document :: expr where
  "document =
     DictDisplay [(''level1'', DictDisplay [(''level2'', DictDisplay [(''level3'', IntC 100)])])]"

text \<open>The truth value of the condition of an \<^verbatim>\<open>if\<close>.\<close>

definition truthy :: "heap \<Rightarrow> pyval \<Rightarrow> bool" where
  "truthy h v =
     (case v of
        VNone \<Rightarrow> False
      | VBool b \<Rightarrow> b
      | VInt i \<Rightarrow> i \<noteq> 0
      | VClass c \<Rightarrow> True
      | VRef a \<Rightarrow>
          (case lookup_obj h a of
             Some ob \<Rightarrow> if cls ob = ''dict'' then slots ob \<noteq> [] else True
           | None \<Rightarrow> True))"

text \<open>
  The statements \<^verbatim>\<open>if C: instances[key] = ctor\<close> of lines 93 to 110, in their order: the
  condition, the key, the constructor expression.
\<close>

definition instance_specs :: "(expr \<times> string \<times> expr) list" where
  "instance_specs =
     [(BoolC True, ''dict'', document),
      (Name ''Lattix'', ''Lattix'', Call (Name ''Lattix'') [Name ''raw_data''] []),
      (Name ''EasyDict'', ''EasyDict'', Call (Name ''EasyDict'') [Name ''raw_data''] []),
      (Name ''Addict'', ''Addict'', Call (Name ''Addict'') [Name ''raw_data''] []),
      (Name ''Box'', ''Box'', Call (Name ''Box'') [Name ''raw_data''] []),
      (Name ''TreeDict'', ''TreeDict'', Call (Name ''TreeDict'') [Name ''raw_data''] []),
      (Name ''AttrsL1'', ''Attrs'',
         Call (Name ''AttrsL1'') []
           [(''level1'', Call (Name ''AttrsL2'') []
              [(''level2'', Call (Name ''AttrsL3'') [] [(''level3'', IntC 100)])])]),
      (Name ''DottedDict'', ''DottedDict'', Call (Name ''DottedDict'') [Name ''raw_data''] [])]"

text \<open>
  The statements run in sequence; an exception in a condition or in a constructor is not
  caught and ends the script.
\<close>

fun build_instances ::
  "env \<Rightarrow> globals \<Rightarrow> (expr \<times> string \<times> expr) list \<Rightarrow> (string \<times> pyval) list \<Rightarrow> heap
   \<Rightarrow> (string \<times> pyval) list result" where
  "build_instances env g [] instances h = (Inr instances, h)"
| "build_instances env g ((cond, key, ctor) # rest) instances h =
     (case eval env g cond h of
        (Inl x, h1) \<Rightarrow> (Inl x, h1)
      | (Inr c, h1) \<Rightarrow>
          if truthy h1 c
          then (case eval env g ctor h1 of
                  (Inl x, h2) \<Rightarrow> (Inl x, h2)
                | (Inr v, h2) \<Rightarrow> build_instances env g rest (AList.update key v instances) h2)
          else build_instances env g rest instances h1)"

text \<open>
  The module up to the registry: the imports, \<^verbatim>\<open>raw_data\<close>, \<^verbatim>\<open>instances\<close>. The result is
  the globals that the timed statements can refer to, and the dictionary \<^verbatim>\<open>instances\<close>.
\<close>

definition module_init :: "env \<Rightarrow> heap \<Rightarrow> (globals \<times> (string \<times> pyval) list) result" where
  "module_init env h =
     (case eval env (import_libraries env) document h of
        (Inl x, h1) \<Rightarrow> (Inl x, h1)
      | (Inr raw_data, h1) \<Rightarrow>
          (case build_instances env (AList.update ''raw_data'' raw_data (import_libraries env))
                  instance_specs [] h1 of
             (Inl x, h2) \<Rightarrow> (Inl x, h2)
           | (Inr instances, h2) \<Rightarrow>
               (Inr (AList.update ''raw_data'' raw_data (import_libraries env), instances), h2)))"

text \<open>The registry: class name, init statement, support key, support dot.\<close>

definition libs :: "(string \<times> stmt \<times> bool \<times> bool) list" where
  "libs =
     [(''dict'', Expr (Call (Name ''dict'') [Name ''raw_data''] []), True, False),
      (''Lattix'', Expr (Call (Name ''Lattix'') [Name ''raw_data''] [(''lazy_create'', BoolC True)]),
         True, True),
      (''EasyDict'', Expr (Call (Name ''EasyDict'') [Name ''raw_data''] []), True, True),
      (''Addict'', Expr (Call (Name ''Addict'') [Name ''raw_data''] []), True, True),
      (''Box'', Expr (Call (Name ''Box'') [Name ''raw_data''] []), True, True),
      (''TreeDict'', Expr (Call (Name ''TreeDict'') [Name ''raw_data''] []), True, False),
      (''Attrs'',
         Expr (Call (Name ''AttrsL1'') []
           [(''level1'', Call (Name ''AttrsL2'') []
              [(''level2'', Call (Name ''AttrsL3'') [] [(''level3'', IntC 100)])])]),
         False, True),
      (''DottedDict'', Expr (Call (Name ''DottedDict'') [Name ''raw_data''] []), True, True)]"

subsection \<open>The main loop\<close>

text \<open>The four timed statements on the long-lived instance, bound to the name \<^verbatim>\<open>obj\<close>.\<close>

definition read_key_stmt :: stmt where
  "read_key_stmt =
     Expr (Subscript (Subscript (Subscript (Name ''obj'') ''level1'') ''level2'') ''level3'')"

definition read_dot_stmt :: stmt where
  "read_dot_stmt =
     Expr (Attribute (Attribute (Attribute (Name ''obj'') ''level1'') ''level2'') ''level3'')"

definition write_key_stmt :: stmt where
  "write_key_stmt =
     AssignSubscript (Subscript (Subscript (Name ''obj'') ''level1'') ''level2'') ''level3'' (IntC 200)"

definition write_dot_stmt :: stmt where
  "write_dot_stmt =
     AssignAttribute (Attribute (Attribute (Name ''obj'') ''level1'') ''level2'') ''level3'' (IntC 300)"

text \<open>The dictionary \<^verbatim>\<open>results\<close> as each iteration creates it.\<close>

type_synonym results = "(string \<times> pyfloat option) list"

definition results_init :: results where
  "results_init =
     [(''init'', None), (''read_k'', None), (''read_d'', None), (''write_k'', None),
      (''write_d'', None)]"

text \<open>
  One measurement of the loop body, \<^verbatim>\<open>if cond: results[key] = run(stmt, globals=g)\<close>; the
  measurement of the init statement is the same with no condition.
\<close>

definition measure_into ::
  "env \<Rightarrow> bool \<Rightarrow> string \<Rightarrow> stmt \<Rightarrow> globals \<Rightarrow> results \<Rightarrow> world \<Rightarrow> (pyexc + results) \<times> world" where
  "measure_into env cond key stmt g results w =
     (if cond
      then (case run env stmt Pass g w of
              (Inl x, w') \<Rightarrow> (Inl x, w')
            | (Inr t, w') \<Rightarrow> (Inr (AList.update key t results), w'))
      else (Inr results, w))"

text \<open>The row printed at the end of an iteration; \<^verbatim>\<open>results[key]\<close> raises for a missing key.\<close>

definition get_result :: "results \<Rightarrow> string \<Rightarrow> pyexc + pyfloat option" where
  "get_result results key = (case map_of results key of Some t \<Rightarrow> Inr t | None \<Rightarrow> Inl KeyError)"

definition row_cells :: "results \<Rightarrow> pyexc + string list" where
  "row_cells results =
     (case (get_result results ''init'', get_result results ''read_k'',
            get_result results ''read_d'', get_result results ''write_k'',
            get_result results ''write_d'') of
        (Inr i, Inr rk, Inr rd, Inr wk, Inr wd) \<Rightarrow>
          Inr [format_res i, format_res rk, format_res rd, format_res wk, format_res wd]
      | _ \<Rightarrow> Inl KeyError)"

definition row_line :: "string \<Rightarrow> string list \<Rightarrow> string" where
  "row_line name cells = join_cells (ljust 12 name # map (ljust 8) cells)"

text \<open>
  One iteration of the loop over \<^verbatim>\<open>libs\<close>, lines 135 to 182. The result is \<open>None\<close> when
  the iteration is skipped by \<^verbatim>\<open>continue\<close>, and the dictionary \<^verbatim>\<open>results\<close> otherwise.
  (\<^verbatim>\<open>globals()\<close> also holds the loop's own variables, to which no init statement of the
  registry refers.)
\<close>

definition bench_row ::
  "env \<Rightarrow> globals \<Rightarrow> (string \<times> pyval) list \<Rightarrow> string \<times> stmt \<times> bool \<times> bool \<Rightarrow> world
   \<Rightarrow> (pyexc + results option) \<times> world" where
  "bench_row env g instances lib w =
     (case lib of (name, init_stmt, support_key, support_dot) \<Rightarrow>
        if map_of instances name = None \<and> name \<noteq> ''dict'' \<and> name \<noteq> ''Attrs''
        then (Inr None, w)
        else
          (case measure_into env True ''init'' init_stmt g results_init w of
             (Inl x, w1) \<Rightarrow> (Inl x, w1)
           | (Inr r1, w1) \<Rightarrow>
               (let obj = (case map_of instances name of Some v \<Rightarrow> v | None \<Rightarrow> VNone);
                    setup_env = [(''obj'', obj)]
                in case measure_into env (support_key \<and> obj \<noteq> VNone) ''read_k'' read_key_stmt
                          setup_env r1 w1 of
                     (Inl x, w2) \<Rightarrow> (Inl x, w2)
                   | (Inr r2, w2) \<Rightarrow>
                (case measure_into env (support_dot \<and> obj \<noteq> VNone) ''read_d'' read_dot_stmt
                          setup_env r2 w2 of
                     (Inl x, w3) \<Rightarrow> (Inl x, w3)
                   | (Inr r3, w3) \<Rightarrow>
                (case measure_into env (support_key \<and> obj \<noteq> VNone) ''write_k'' write_key_stmt
                          setup_env r3 w3 of
                     (Inl x, w4) \<Rightarrow> (Inl x, w4)
                   | (Inr r4, w4) \<Rightarrow>
                (case measure_into env (support_dot \<and> obj \<noteq> VNone) ''write_d'' write_dot_stmt
                          setup_env r4 w4 of
                     (Inl x, w5) \<Rightarrow> (Inl x, w5)
                   | (Inr r5, w5) \<Rightarrow>
                (case row_cells r5 of
                     Inl x \<Rightarrow> (Inl x, w5)
                   | Inr cells \<Rightarrow>
                       (Inr (Some r5), w5\<lparr>stdout := stdout w5 @ [row_line name cells]\<rparr>))))))))"

fun bench_all ::
  "env \<Rightarrow> globals \<Rightarrow> (string \<times> pyval) list \<Rightarrow> (string \<times> stmt \<times> bool \<times> bool) list \<Rightarrow> world
   \<Rightarrow> (pyexc + unit) \<times> world" where
  "bench_all env g instances [] w = (Inr (), w)"
| "bench_all env g instances (lib # rest) w =
     (case bench_row env g instances lib w of
        (Inl x, w') \<Rightarrow> (Inl x, w')
      | (Inr _, w') \<Rightarrow> bench_all env g instances rest w')"

text \<open>The four lines printed before the loop.\<close>

definition headers :: "env \<Rightarrow> string list" where
  "headers env =
     [''Python Ver.: '' @ sys_version env, ''Epoch: '' @ digits ITER_N, header_line,
      replicate 70 (CHR ''-'')]"

text \<open>
  The script run as \<^verbatim>\<open>__main__\<close>, from an empty heap. \<open>Inl x\<close> is an uncaught exception:
  the interpreter prints a traceback and exits with a non-zero status.
\<close>

definition main :: "env \<Rightarrow> (pyexc + unit) \<times> world" where
  "main env =
     (case module_init env [] of
        (Inl x, h) \<Rightarrow> (Inl x, \<lparr>heap = h, ticks = 0, stdout = [], trace = []\<rparr>)
      | (Inr (g, instances), h) \<Rightarrow>
          bench_all env g instances libs \<lparr>heap = h, ticks = 0, stdout = headers env, trace = []\<rparr>)"

subsection \<open>Concrete environments\<close>

text \<open>
  Environments at which the script is run below. The clock \<open>clock0\<close> measures
  \<open>(k + 1) / 8\<close> seconds for the \<open>k\<close>-th timing. \<open>lib_ok\<close> is a library that is
  installed and implements both access styles; \<open>lib_absent\<close> is not installed.
\<close>

definition clock0 :: "nat \<Rightarrow> pyfloat" where
  "clock0 k = PyFloat False (Suc k) (- 3)"

definition lib_ok :: collab where
  "lib_ok = \<lparr>importable = True, ctor_raises = None, item_access = True, attr_access = True\<rparr>"

definition lib_absent :: collab where
  "lib_absent = \<lparr>importable = False, ctor_raises = None, item_access = True, attr_access = True\<rparr>"

text \<open>Only \<^verbatim>\<open>lattix\<close> and \<^verbatim>\<open>attrs\<close> are installed.\<close>

definition env_lattix :: env where
  "env_lattix =
     \<lparr>collabs = (\<lambda>c. if c = ''Lattix'' then lib_ok else lib_absent),
      attrs_importable = True, sys_version = ''3.12.0'', elapsed = clock0\<rparr>"

text \<open>\<^verbatim>\<open>box\<close> and \<^verbatim>\<open>attrs\<close> are installed; the constructor of \<^verbatim>\<open>Box\<close> always raises.\<close>

definition env_box_raises :: env where
  "env_box_raises =
     \<lparr>collabs = (\<lambda>c. if c = ''Box'' then lib_ok\<lparr>ctor_raises := Some TypeError\<rparr> else lib_absent),
      attrs_importable = True, sys_version = ''3.12.0'', elapsed = clock0\<rparr>"

text \<open>Only \<^verbatim>\<open>lattix\<close> is installed; \<^verbatim>\<open>attrs\<close> is not.\<close>

definition env_no_attrs :: env where
  "env_no_attrs =
     \<lparr>collabs = (\<lambda>c. if c = ''Lattix'' then lib_ok else lib_absent),
      attrs_importable = False, sys_version = ''3.12.0'', elapsed = clock0\<rparr>"

definition world_empty :: world where
  "world_empty = \<lparr>heap = [], ticks = 0, stdout = [], trace = []\<rparr>"

text \<open>
  The state after the module-level statements where only \<^verbatim>\<open>lattix\<close> and \<^verbatim>\<open>attrs\<close> are
  installed: the globals, the dictionary \<^verbatim>\<open>instances\<close>, the heap (the document
  \<^verbatim>\<open>raw_data\<close> at address 2, the three instances at 5, 8 and 11), and the state in which
  the loop starts. Three rows of the registry.
\<close>

definition globals_lattix :: globals where
  "globals_lattix =
     [(''Lattix'', VClass ''Lattix''), (''EasyDict'', VNone), (''Addict'', VNone), (''Box'', VNone),
      (''TreeDict'', VNone), (''DottedDict'', VNone), (''TreeDict'', VNone),
      (''AttrsL3'', VClass ''AttrsL3''), (''AttrsL2'', VClass ''AttrsL2''),
      (''AttrsL1'', VClass ''AttrsL1''), (''raw_data'', VRef 2)]"

definition instances_lattix :: "(string \<times> pyval) list" where
  "instances_lattix = [(''dict'', VRef 5), (''Lattix'', VRef 8), (''Attrs'', VRef 11)]"

definition heap_lattix :: heap where
  "heap_lattix =
     [PyObj ''dict'' [(''level3'', VInt 100)], PyObj ''dict'' [(''level2'', VRef 0)],
      PyObj ''dict'' [(''level1'', VRef 1)],
      PyObj ''dict'' [(''level3'', VInt 100)], PyObj ''dict'' [(''level2'', VRef 3)],
      PyObj ''dict'' [(''level1'', VRef 4)],
      PyObj ''Lattix'' [(''level3'', VInt 100)], PyObj ''Lattix'' [(''level2'', VRef 6)],
      PyObj ''Lattix'' [(''level1'', VRef 7)],
      PyObj ''AttrsL3'' [(''level3'', VInt 100)], PyObj ''AttrsL2'' [(''level2'', VRef 9)],
      PyObj ''AttrsL1'' [(''level1'', VRef 10)]]"

definition world_lattix :: world where
  "world_lattix = \<lparr>heap = heap_lattix, ticks = 0, stdout = headers env_lattix, trace = []\<rparr>"

definition dict_row :: "string \<times> stmt \<times> bool \<times> bool" where
  "dict_row = (''dict'', Expr (Call (Name ''dict'') [Name ''raw_data''] []), True, False)"

definition lattix_row :: "string \<times> stmt \<times> bool \<times> bool" where
  "lattix_row =
     (''Lattix'', Expr (Call (Name ''Lattix'') [Name ''raw_data''] [(''lazy_create'', BoolC True)]),
      True, True)"

definition attrs_row :: "string \<times> stmt \<times> bool \<times> bool" where
  "attrs_row =
     (''Attrs'',
      Expr (Call (Name ''AttrsL1'') []
        [(''level1'', Call (Name ''AttrsL2'') []
           [(''level2'', Call (Name ''AttrsL3'') [] [(''level3'', IntC 100)])])]),
      False, True)"

subsection \<open>Shapes of the heap\<close>

text \<open>
  \<open>doc_at h a i\<close>: the object at address \<open>a\<close> is a three-level document, in the layout
  in which the constructors allocate it (the innermost object first), with the integer
  \<open>i\<close> at the innermost level. \<open>leaf_changed h a h'\<close>: the heap \<open>h'\<close> differs from
  \<open>h\<close> at most in the integer held by the innermost object of the document at \<open>a\<close>.
\<close>

definition doc_at :: "heap \<Rightarrow> nat \<Rightarrow> int \<Rightarrow> bool" where
  "doc_at h a i =
     (2 \<le> a \<and> a < length h \<and>
      slots (h ! a) = [(''level1'', VRef (a - 1))] \<and>
      slots (h ! (a - 1)) = [(''level2'', VRef (a - 2))] \<and>
      slots (h ! (a - 2)) = [(''level3'', VInt i)])"

definition leaf_changed :: "heap \<Rightarrow> nat \<Rightarrow> heap \<Rightarrow> bool" where
  "leaf_changed h a h' =
     (length h' = length h \<and>
      (\<forall>j. j \<noteq> a - 2 \<longrightarrow> h' ! j = h ! j) \<and>
      cls (h' ! (a - 2)) = cls (h ! (a - 2)) \<and>
      (\<exists>i. slots (h' ! (a - 2)) = [(''level3'', VInt i)]))"

subsection \<open>The log of timed statements and the contents of objects\<close>

text \<open>
  What the claims about the order of the measurements and about isolation speak of.
  An entry of the log is a read or a write when its statement is one of the two timed
  reads or of the two timed writes; the instance that it works on is the binding of
  \<^verbatim>\<open>obj\<close> in its globals. \<open>reads_before_writes\<close>: no write is followed by a read on the
  same instance. \<open>reads_observe i\<close>: every execution of every timed read evaluated to
  the integer \<open>i\<close>.
\<close>

definition is_read :: "event \<Rightarrow> bool" where
  "is_read e = (timed_stmt e = read_key_stmt \<or> timed_stmt e = read_dot_stmt)"

definition is_write :: "event \<Rightarrow> bool" where
  "is_write e = (timed_stmt e = write_key_stmt \<or> timed_stmt e = write_dot_stmt)"

fun reads_before_writes :: "event list \<Rightarrow> bool" where
  "reads_before_writes [] = True"
| "reads_before_writes (e # es) =
     ((if is_write e
       then list_all (\<lambda>r. \<not> (is_read r \<and> timed_globals r = timed_globals e)) es
       else True) \<and>
      reads_before_writes es)"

definition reads_observe :: "int \<Rightarrow> event list \<Rightarrow> bool" where
  "reads_observe i tr =
     list_all (\<lambda>e. if is_read e then list_all (\<lambda>v. v = VInt i) (observed e) else True) tr"

text \<open>
  The contents of a value down to depth \<open>d\<close>: what a program that holds the value can
  observe of it by following at most \<open>d\<close> references.
\<close>

datatype tree = Atom pyval | Object string "(string \<times> tree) list" | Dangling | Truncated

fun snapshot :: "nat \<Rightarrow> heap \<Rightarrow> pyval \<Rightarrow> tree" where
  "snapshot 0 h (VRef a) = Truncated"
| "snapshot (Suc d) h (VRef a) =
     (case lookup_obj h a of
        None \<Rightarrow> Dangling
      | Some ob \<Rightarrow> Object (cls ob) (map (\<lambda>kv. (fst kv, snapshot d h (snd kv))) (slots ob)))"
| "snapshot d h v = Atom v"

subsection \<open>Invariants of the run\<close>

text \<open>
  Predicates of the proofs. \<open>doc_cells\<close> are the three objects of a document as the
  constructors allocate them at address \<open>n\<close>. \<open>module_globals\<close> are the globals after
  the module-level statements. \<open>instances_ok\<close> holds of the heap and of \<^verbatim>\<open>instances\<close>
  while the module-level statements build the instances: \<^verbatim>\<open>raw_data\<close> is the document
  at address 2, every instance is a document of its own holding 100, and no two names
  share an instance. \<open>ctors_ok\<close>: a library that has an instance has a constructor
  that does not raise. \<open>row_events a i\<close> are the log entries of one row on the instance at
  \<open>a\<close>: the init statement, then reads that observe \<open>i\<close>, then writes. \<open>fresh a\<close>:
  the log has no read or write on the instance at \<open>a\<close>. \<open>loop_inv\<close> is the invariant of
  the main loop, \<open>pending\<close> being the names of the rows not yet processed.
\<close>

definition doc_cells :: "string \<Rightarrow> string \<Rightarrow> string \<Rightarrow> nat \<Rightarrow> pyobj list" where
  "doc_cells c3 c2 c1 n =
     [PyObj c3 [(''level3'', VInt 100)], PyObj c2 [(''level2'', VRef n)],
      PyObj c1 [(''level1'', VRef (n + 1))]]"

definition module_globals :: "env \<Rightarrow> globals" where
  "module_globals env = AList.update ''raw_data'' (VRef 2) (import_libraries env)"

definition instances_ok :: "heap \<Rightarrow> (string \<times> pyval) list \<Rightarrow> bool" where
  "instances_ok h insts =
     (length h mod 3 = 0 \<and> take 3 h = doc_cells ''dict'' ''dict'' ''dict'' 0 \<and>
      (\<forall>n v. map_of insts n = Some v \<longrightarrow>
         (\<exists>a. v = VRef a \<and> 5 \<le> a \<and> a mod 3 = 2 \<and> a < length h \<and> doc_at h a 100)) \<and>
      (\<forall>n n' v. map_of insts n = Some v \<longrightarrow> map_of insts n' = Some v \<longrightarrow> n = n'))"

definition ctors_ok :: "env \<Rightarrow> (string \<times> pyval) list \<Rightarrow> bool" where
  "ctors_ok env insts =
     (\<forall>c \<in> {''Lattix'', ''EasyDict'', ''Addict'', ''Box'', ''TreeDict'', ''DottedDict''}.
        map_of insts c \<noteq> None \<longrightarrow> ctor_raises (collabs env c) = None)"

definition row_events :: "nat \<Rightarrow> int \<Rightarrow> event list \<Rightarrow> bool" where
  "row_events a i evs =
     (\<exists>e0 rs ws.
        evs = e0 # rs @ ws \<and> \<not> is_read e0 \<and> \<not> is_write e0 \<and>
        (\<forall>e \<in> set rs. is_read e \<and> timed_globals e = [(''obj'', VRef a)] \<and>
                       list_all (\<lambda>v. v = VInt i) (observed e)) \<and>
        (\<forall>e \<in> set ws. is_write e \<and> timed_globals e = [(''obj'', VRef a)]))"

definition is_call_row :: "string \<times> stmt \<times> bool \<times> bool \<Rightarrow> bool" where
  "is_call_row row = (case fst (snd row) of Expr (Call f as ks) \<Rightarrow> True | _ \<Rightarrow> False)"

definition fresh :: "nat \<Rightarrow> event list \<Rightarrow> bool" where
  "fresh a tr = (\<forall>e \<in> set tr. is_read e \<or> is_write e \<longrightarrow> timed_globals e \<noteq> [(''obj'', VRef a)])"

definition loop_inv :: "(string \<times> pyval) list \<Rightarrow> string list \<Rightarrow> world \<Rightarrow> bool" where
  "loop_inv insts pending w =
     (take 3 (heap w) = doc_cells ''dict'' ''dict'' ''dict'' 0 \<and>
      (\<forall>n v. map_of insts n = Some v \<longrightarrow>
         (\<exists>a i. v = VRef a \<and> 5 \<le> a \<and> a mod 3 = 2 \<and> doc_at (heap w) a i \<and>
                (n \<in> set pending \<longrightarrow> i = 100 \<and> fresh a (trace w)))) \<and>
      (\<forall>n n' v. map_of insts n = Some v \<longrightarrow> map_of insts n' = Some v \<longrightarrow> n = n') \<and>
      reads_before_writes (trace w) \<and> reads_observe 100 (trace w))"

section \<open>Properties\<close>

subsection \<open>The report formatter\<close>





























subsection \<open>The timing primitive\<close>

lemma repeat_stable: "f h = (Inr v, h) \<Longrightarrow> v \<in> set obs \<Longrightarrow> repeat n f h obs = (None, h, obs)"
  by (induction n) (simp_all add: List.insert_def)

text \<open>
  One step of the loop of \<^verbatim>\<open>timeit\<close>, for a repetition count given as a numeral: once
  an execution leaves the heap and the values seen as they were, all further executions
  do.
\<close>

lemma repeat_unfold:
  assumes "0 < n"
  shows "repeat n f h obs =
     (case f h of
        (Inl x, h') \<Rightarrow> (Some x, h', obs)
      | (Inr v, h') \<Rightarrow>
          if h' = h \<and> v \<in> set obs then (None, h', obs)
          else repeat (n - 1) f h' (List.insert v obs))"
proof -
  from assms obtain m where n: "n = Suc m" by (cases n) auto
  obtain r h' where fh: "f h = (r, h')" by (cases "f h")
  show ?thesis
  proof (cases r)
    case (Inl x)
    with fh n show ?thesis by simp
  next
    case (Inr v)
    show ?thesis
    proof (cases "h' = h \<and> v \<in> set obs")
      case True
      then have "f h = (Inr v, h)" and "v \<in> set obs" using fh Inr by simp_all
      then have "repeat n f h obs = (None, h, obs)" by (rule repeat_stable)
      then show ?thesis using True fh Inr by simp
    next
      case False
      then have "\<not> (h' = h \<and> v \<in> set obs)" .
      then show ?thesis unfolding n using fh Inr by (simp del: de_Morgan_conj)
    qed
  qed
qed

text \<open>The definitions that a run of the script at a concrete environment unfolds.\<close>

lemmas model_defs =
  main_def module_init_def import_libraries_def try_import_def document_def instance_specs_def
  libs_def bench_row_def measure_into_def run_def timeit_def ITER_N_def
  read_key_stmt_def read_dot_stmt_def write_key_stmt_def write_dot_stmt_def results_init_def
  row_cells_def get_result_def
  py_call_def new_dict_def new_collab_def new_AttrsL1_def new_AttrsL2_def new_AttrsL3_def
  bind_field_def alloc_def alloc_document_def read_document_def dict_entry_def lookup_obj_def
  dict_of_def truthy_def lookup_name_def builtins_def
  py_getitem_def py_setitem_def py_getattr_def py_setattr_def item_capable_def attr_capable_def
  attrs_classes_def headers_def Let_def

lemmas env_defs =
  env_lattix_def env_box_raises_def env_no_attrs_def lib_ok_def lib_absent_def clock0_def
  world_empty_def

text \<open>
  Claim C3, as amended. \<^verbatim>\<open>run\<close> never lets an exception that derives from
  \<^verbatim>\<open>Exception\<close> escape. If the setup statement or one of the \<^verbatim>\<open>ITER_N\<close> executions of
  the statement raises such an exception, the result is \<^verbatim>\<open>None\<close>; if it raises an
  exception outside that hierarchy (\<^verbatim>\<open>SystemExit\<close>, \<^verbatim>\<open>KeyboardInterrupt\<close>,
  \<^verbatim>\<open>GeneratorExit\<close>), the exception leaves \<^verbatim>\<open>run\<close>; if nothing is raised, the result
  is the time measured for the \<^verbatim>\<open>ITER_N\<close> executions.
\<close>

theorem run_catches_Exception:
  "fst (run env stmt setup g w) \<noteq> Inl (Exception c) \<and>
   fst (run env stmt setup g w) =
     (case fst (exec env g setup (heap w)) of
        Inl x \<Rightarrow> if isinstance_Exception x then Inr None else Inl x
      | Inr _ \<Rightarrow>
          (case fst (repeat ITER_N (exec env g stmt) (snd (exec env g setup (heap w))) []) of
             Some x \<Rightarrow> if isinstance_Exception x then Inr None else Inl x
           | None \<Rightarrow> Inr (Some (elapsed env (ticks w)))))"
proof -
  obtain r1 h1 where s: "exec env g setup (heap w) = (r1, h1)"
    by (cases "exec env g setup (heap w)")
  obtain r2 h2 obs where l: "repeat ITER_N (exec env g stmt) h1 [] = (r2, h2, obs)"
    by (cases "repeat ITER_N (exec env g stmt) h1 []")
  show ?thesis
    unfolding run_def timeit_def s
    by (cases r1; cases r2) (auto simp: l)
qed

text \<open>
  Claim C3 as stated fails: a statement that raises \<^verbatim>\<open>KeyboardInterrupt\<close> makes
  \<^verbatim>\<open>run\<close> raise it, not return \<^verbatim>\<open>None\<close>.
\<close>

theorem run_propagates_KeyboardInterrupt:
  "fst (run env_lattix (Raise KeyboardInterrupt) Pass [] world_empty) = Inl KeyboardInterrupt"
  by (simp add: run_def timeit_def ITER_N_def world_empty_def repeat_unfold)

subsection \<open>Runs of the script at concrete environments\<close>

text \<open>
  Claim C1, at a failing input: \<^verbatim>\<open>box\<close> is installed and the constructor of \<^verbatim>\<open>Box\<close>
  raises \<^verbatim>\<open>TypeError\<close>. The statement \<^verbatim>\<open>instances["Box"] = Box(raw_data)\<close> at module
  level is outside any \<^verbatim>\<open>try\<close>: the exception ends the script before anything is
  printed, and no row is emitted for any implementation.
\<close>

theorem main_constructor_raises:
  "fst (main env_box_raises) = Inl TypeError \<and> stdout (snd (main env_box_raises)) = []"
  by (simp add: model_defs env_defs)

text \<open>
  Claim C2, at a failing input: \<^verbatim>\<open>attrs\<close> is not installed. The import guard binds
  \<^verbatim>\<open>define\<close>, not \<^verbatim>\<open>AttrsL1\<close>, so the condition \<^verbatim>\<open>if AttrsL1:\<close> raises \<^verbatim>\<open>NameError\<close> at
  module level: the script ends before anything is printed.
\<close>

theorem main_attrs_not_importable:
  "fst (main env_no_attrs) = Inl NameError \<and> stdout (snd (main env_no_attrs)) = []"
  by (simp add: model_defs env_defs)

text \<open>
  Claim C4 as stated fails: where \<^verbatim>\<open>lattix\<close> and \<^verbatim>\<open>attrs\<close> are installed, the statements
  timed are, in this order, those of the rows \<^verbatim>\<open>dict\<close>, \<^verbatim>\<open>Lattix\<close> and \<^verbatim>\<open>Attrs\<close>; in the
  row of \<^verbatim>\<open>Lattix\<close>, which supports both styles, the dot read is timed before the key
  write.
\<close>

theorem main_times_dot_read_before_key_write:
  "map timed_stmt (trace (snd (main env_lattix))) =
     [Expr (Call (Name ''dict'') [Name ''raw_data''] []), read_key_stmt, write_key_stmt,
      Expr (Call (Name ''Lattix'') [Name ''raw_data''] [(''lazy_create'', BoolC True)]),
      read_key_stmt, read_dot_stmt, write_key_stmt, write_dot_stmt,
      Expr (Call (Name ''AttrsL1'') []
             [(''level1'', Call (Name ''AttrsL2'') []
                [(''level2'', Call (Name ''AttrsL3'') [] [(''level3'', IntC 100)])])]),
      read_dot_stmt, write_dot_stmt]"
  by (simp add: model_defs env_defs repeat_unfold)

subsection \<open>The evaluator and the heap\<close>

lemma py_getitem_exc: "py_getitem env h v k = Inl x \<Longrightarrow> isinstance_Exception x"
  unfolding py_getitem_def by (auto split: pyval.splits option.splits if_splits)

lemma py_getattr_exc: "py_getattr env h v k = Inl x \<Longrightarrow> isinstance_Exception x"
  unfolding py_getattr_def by (auto split: pyval.splits option.splits if_splits)

lemma py_setitem_exc: "py_setitem env h v k y = Inl x \<Longrightarrow> isinstance_Exception x"
  unfolding py_setitem_def by (auto split: pyval.splits option.splits if_splits)

lemma py_setattr_exc: "py_setattr env h v k y = Inl x \<Longrightarrow> isinstance_Exception x"
  unfolding py_setattr_def by (auto split: pyval.splits option.splits if_splits)

lemma alloc_prefix: "alloc ob h = (r, h') \<Longrightarrow> \<exists>ys. h' = h @ ys"
  unfolding alloc_def by auto

lemma new_dict_prefix: "new_dict args kwargs h = (r, h') \<Longrightarrow> \<exists>ys. h' = h @ ys"
  unfolding new_dict_def
  by (auto split: list.splits pyval.splits option.splits if_splits dest: alloc_prefix)

lemma new_AttrsL3_prefix: "new_AttrsL3 args kwargs h = (r, h') \<Longrightarrow> \<exists>ys. h' = h @ ys"
  unfolding new_AttrsL3_def
  by (auto split: sum.splits option.splits dest: alloc_prefix)

lemma new_AttrsL2_prefix: "new_AttrsL2 args kwargs h = (r, h') \<Longrightarrow> \<exists>ys. h' = h @ ys"
  unfolding new_AttrsL2_def
  by (auto split: sum.splits option.splits prod.splits dest!: alloc_prefix new_AttrsL3_prefix)

lemma new_AttrsL1_prefix: "new_AttrsL1 args kwargs h = (r, h') \<Longrightarrow> \<exists>ys. h' = h @ ys"
  unfolding new_AttrsL1_def
  by (auto split: sum.splits option.splits prod.splits dest!: alloc_prefix new_AttrsL2_prefix)

lemma new_collab_prefix: "new_collab env c args kwargs h = (r, h') \<Longrightarrow> \<exists>ys. h' = h @ ys"
  unfolding new_collab_def alloc_document_def
  by (auto split: list.splits option.splits)

lemma py_call_prefix: "py_call env f args kwargs h = (r, h') \<Longrightarrow> \<exists>ys. h' = h @ ys"
  unfolding py_call_def
  by (auto split: pyval.splits if_splits
      dest: new_dict_prefix new_AttrsL1_prefix new_AttrsL2_prefix new_AttrsL3_prefix new_collab_prefix)

lemma eval_prefix:
  "eval env g e h = (r, h') \<Longrightarrow> \<exists>ys. h' = h @ ys"
  "eval_args env g es h = (rs, h') \<Longrightarrow> \<exists>ys. h' = h @ ys"
  "eval_items env g kes h = (rk, h') \<Longrightarrow> \<exists>ys. h' = h @ ys"
proof (induction env g e h and env g es h and env g kes h
    arbitrary: r h' and rs h' and rk h' rule: eval_eval_args_eval_items.induct)
  case (7 env g f args kwargs h)
  then show ?case
    by (fastforce split: prod.splits sum.splits dest: py_call_prefix)
next
  case (8 env g items h)
  then show ?case
    by (fastforce split: prod.splits sum.splits dest: alloc_prefix)
qed (fastforce split: prod.splits sum.splits option.splits)+


lemma leaf_changed_refl: "doc_at h a i \<Longrightarrow> leaf_changed h a h"
  unfolding leaf_changed_def doc_at_def by auto

lemma leaf_changed_trans: "leaf_changed h a h1 \<Longrightarrow> leaf_changed h1 a h2 \<Longrightarrow> leaf_changed h a h2"
  unfolding leaf_changed_def by auto

lemma leaf_changed_doc: "doc_at h a i \<Longrightarrow> leaf_changed h a h' \<Longrightarrow> \<exists>i'. doc_at h' a i'"
  unfolding leaf_changed_def doc_at_def
  by (cases "a = 2") auto

lemma exec_Expr_heap: "exec env g (Expr e) h = (r, h') \<Longrightarrow> h' = h"
  by (auto split: prod.splits dest: eval_prefix(1))

lemma repeat_invariant:
  assumes "\<And>h r h'. P h \<Longrightarrow> f h = (r, h') \<Longrightarrow> P h'" and "P h"
  shows "P (fst (snd (repeat n f h obs)))"
  using assms(2)
proof (induction n arbitrary: h obs)
  case 0
  then show ?case by simp
next
  case (Suc n)
  obtain r h' where f: "f h = (r, h')" by (cases "f h")
  with Suc.prems have "P h'" using assms(1) by blast
  then show ?case using f Suc.IH [of h'] by (cases r) auto
qed

lemma repeat_observed:
  assumes "\<And>h v h'. P h \<Longrightarrow> f h = (Inr v, h') \<Longrightarrow> Q v"
      and "\<And>h r h'. P h \<Longrightarrow> f h = (r, h') \<Longrightarrow> P h'"
      and "P h" and "list_all Q obs"
  shows "list_all Q (snd (snd (repeat n f h obs)))"
  using assms(3,4)
proof (induction n arbitrary: h obs)
  case 0
  then show ?case by simp
next
  case (Suc n)
  obtain r h' where f: "f h = (r, h')" by (cases "f h")
  with Suc.prems have p: "P h'" using assms(2) by blast
  show ?case
  proof (cases r)
    case (Inl x)
    with f Suc.prems show ?thesis by simp
  next
    case (Inr v)
    with f Suc.prems have "Q v" using assms(1) by blast
    with Suc.prems have "list_all Q (List.insert v obs)" by (simp add: list_all_iff)
    with p f Inr show ?thesis using Suc.IH [of h' "List.insert v obs"] by simp
  qed
qed

lemma repeat_exception:
  assumes "fst (repeat n f h obs) = Some x"
  shows "\<exists>h1 h2. f h1 = (Inl x, h2)"
  using assms
proof (induction n arbitrary: h obs)
  case 0
  then show ?case by simp
next
  case (Suc n)
  obtain r h' where f: "f h = (r, h')" by (cases "f h")
  show ?case
  proof (cases r)
    case (Inl y)
    with f Suc.prems show ?thesis by auto
  next
    case (Inr v)
    with f Suc.prems show ?thesis using Suc.IH [of h' "List.insert v obs"] by simp
  qed
qed


lemma eval_Name_exc: "eval env g (Name n) h = (Inl x, h') \<Longrightarrow> isinstance_Exception x"
  by (auto split: option.splits)

lemma eval_Subscript_exc:
  assumes "\<And>x h'. eval env g e h = (Inl x, h') \<Longrightarrow> isinstance_Exception x"
  shows "eval env g (Subscript e k) h = (Inl x, h') \<Longrightarrow> isinstance_Exception x"
  using assms by (auto split: prod.splits sum.splits dest: py_getitem_exc)

lemma eval_Attribute_exc:
  assumes "\<And>x h'. eval env g e h = (Inl x, h') \<Longrightarrow> isinstance_Exception x"
  shows "eval env g (Attribute e k) h = (Inl x, h') \<Longrightarrow> isinstance_Exception x"
  using assms by (auto split: prod.splits sum.splits dest: py_getattr_exc)

lemma exec_access_exc:
  assumes "s = read_key_stmt \<or> s = read_dot_stmt \<or> s = write_key_stmt \<or> s = write_dot_stmt"
      and "exec env g s h = (Inl x, h')"
  shows "isinstance_Exception x"
proof -
  from assms(1) consider "s = read_key_stmt" | "s = read_dot_stmt" | "s = write_key_stmt"
    | "s = write_dot_stmt" by blast
  then show ?thesis
  proof cases
    case 1
    with assms(2) show ?thesis
      unfolding read_key_stmt_def
      by (auto split: prod.splits sum.splits option.splits dest: py_getitem_exc)
  next
    case 2
    with assms(2) show ?thesis
      unfolding read_dot_stmt_def
      by (auto split: prod.splits sum.splits option.splits dest: py_getattr_exc)
  next
    case 3
    with assms(2) show ?thesis
      unfolding write_key_stmt_def
      by (auto split: prod.splits sum.splits option.splits dest: py_getitem_exc py_setitem_exc)
  next
    case 4
    with assms(2) show ?thesis
      unfolding write_dot_stmt_def
      by (auto split: prod.splits sum.splits option.splits dest: py_getattr_exc py_setattr_exc)
  qed
qed

lemma run_Inl:
  assumes "run env s setup g w = (Inl x, w')"
  shows "\<not> isinstance_Exception x \<and>
         ((\<exists>h'. exec env g setup (heap w) = (Inl x, h')) \<or> (\<exists>h1 h2. exec env g s h1 = (Inl x, h2)))"
proof -
  obtain r1 h1 where s: "exec env g setup (heap w) = (r1, h1)"
    by (cases "exec env g setup (heap w)")
  obtain r2 h2 obs where l: "repeat ITER_N (exec env g s) h1 [] = (r2, h2, obs)"
    by (cases "repeat ITER_N (exec env g s) h1 []")
  show ?thesis
  proof (cases r1)
    case (Inl y)
    with assms s show ?thesis
      unfolding run_def timeit_def by (auto split: if_splits)
  next
    case (Inr v)
    show ?thesis
    proof (cases r2)
      case None
      with assms s l Inr show ?thesis unfolding run_def timeit_def by simp
    next
      case (Some y)
      then have "fst (repeat ITER_N (exec env g s) h1 []) = Some y" using l by simp
      from repeat_exception [OF this] obtain ha hb where "exec env g s ha = (Inl y, hb)" by blast
      with assms s l Inr Some show ?thesis
        unfolding run_def timeit_def by (auto split: if_splits)
    qed
  qed
qed

lemma run_access_total:
  assumes "s = read_key_stmt \<or> s = read_dot_stmt \<or> s = write_key_stmt \<or> s = write_dot_stmt"
  shows "\<exists>t. fst (run env s Pass g w) = Inr t"
proof (cases "fst (run env s Pass g w)")
  case (Inl x)
  then have "run env s Pass g w = (Inl x, snd (run env s Pass g w))"
    by (cases "run env s Pass g w") simp
  from run_Inl [OF this] exec_access_exc [OF assms] show ?thesis by auto
next
  case (Inr t)
  then show ?thesis by blast
qed


lemma run_effect:
  assumes "run env s setup g w = (r, w')"
  shows "stdout w' = stdout w \<and> (\<exists>obs. trace w' = trace w @ [Timed s g obs])"
  using assms unfolding run_def timeit_def
  by (auto split: prod.splits sum.splits option.splits if_splits)

lemma measure_into_effect:
  assumes "measure_into env c key s g res w = (Inr res', w')"
  shows "stdout w' = stdout w \<and>
         (if c then \<exists>t obs. res' = AList.update key t res \<and> trace w' = trace w @ [Timed s g obs]
          else res' = res \<and> w' = w)"
  using assms run_effect [of env s Pass g w] unfolding measure_into_def
  by (auto split: prod.splits sum.splits if_splits)

lemma seqE:
  assumes "(case p of (Inl x, w1) \<Rightarrow> (Inl x, w1) | (Inr a, w1) \<Rightarrow> k a w1) = (Inr y, w')"
  obtains a w1 where "p = (Inr a, w1)" and "k a w1 = (Inr y, w')"
  using assms by (cases p; cases "fst p") auto

lemma bench_row_run:
  assumes "fst (bench_row env g instances (name, init_stmt, sk, sd) w) = Inr (Some results)"
  defines "obj \<equiv> (case map_of instances name of Some v \<Rightarrow> v | None \<Rightarrow> VNone)"
  shows "\<exists>r1 w1 r2 w2 r3 w3 r4 w4 w5 cells.
           measure_into env True ''init'' init_stmt g results_init w = (Inr r1, w1) \<and>
           measure_into env (sk \<and> obj \<noteq> VNone) ''read_k'' read_key_stmt [(''obj'', obj)] r1 w1 = (Inr r2, w2) \<and>
           measure_into env (sd \<and> obj \<noteq> VNone) ''read_d'' read_dot_stmt [(''obj'', obj)] r2 w2 = (Inr r3, w3) \<and>
           measure_into env (sk \<and> obj \<noteq> VNone) ''write_k'' write_key_stmt [(''obj'', obj)] r3 w3 = (Inr r4, w4) \<and>
           measure_into env (sd \<and> obj \<noteq> VNone) ''write_d'' write_dot_stmt [(''obj'', obj)] r4 w4 = (Inr results, w5) \<and>
           row_cells results = Inr cells \<and>
           snd (bench_row env g instances (name, init_stmt, sk, sd) w) = w5\<lparr>stdout := stdout w5 @ [row_line name cells]\<rparr>"
proof -
  obtain w' where b: "bench_row env g instances (name, init_stmt, sk, sd) w = (Inr (Some results), w')"
    using assms(1) by (cases "bench_row env g instances (name, init_stmt, sk, sd) w") auto
  have ns: "(map_of instances name = None \<and> name \<noteq> ''dict'' \<and> name \<noteq> ''Attrs'') = False"
  proof (rule ccontr)
    assume "(map_of instances name = None \<and> name \<noteq> ''dict'' \<and> name \<noteq> ''Attrs'') \<noteq> False"
    then have "bench_row env g instances (name, init_stmt, sk, sd) w = (Inr None, w)"
      unfolding bench_row_def by simp
    with b show False by simp
  qed
  have w'_eq: "snd (bench_row env g instances (name, init_stmt, sk, sd) w) = w'"
    using b by simp
  note b' = b [unfolded bench_row_def Let_def prod.case ns if_False]
  show ?thesis
    unfolding w'_eq obj_def
    using b'
    apply (elim seqE)
    apply (auto split: sum.splits)
    done
qed



lemma measure_chain:
  assumes
    m1: "measure_into env True ''init'' init_stmt g results_init w = (Inr r1, w1)" and
    m2: "measure_into env c1 ''read_k'' read_key_stmt ge r1 w1 = (Inr r2, w2)" and
    m3: "measure_into env c2 ''read_d'' read_dot_stmt ge r2 w2 = (Inr r3, w3)" and
    m4: "measure_into env c1 ''write_k'' write_key_stmt ge r3 w3 = (Inr r4, w4)" and
    m5: "measure_into env c2 ''write_d'' write_dot_stmt ge r4 w4 = (Inr results, w5)"
  shows "\<exists>t0 t1 t2 t3 t4 o0 o1 o2 o3 o4.
           results = [(''init'', t0), (''read_k'', t1), (''read_d'', t2), (''write_k'', t3),
                      (''write_d'', t4)] \<and>
           (if c1 then True else t1 = None \<and> t3 = None) \<and>
           (if c2 then True else t2 = None \<and> t4 = None) \<and>
           stdout w5 = stdout w \<and>
           trace w5 =
             trace w @ [Timed init_stmt g o0] @
             (if c1 then [Timed read_key_stmt ge o1] else []) @
             (if c2 then [Timed read_dot_stmt ge o2] else []) @
             (if c1 then [Timed write_key_stmt ge o3] else []) @
             (if c2 then [Timed write_dot_stmt ge o4] else [])"
proof -
  note e1 = measure_into_effect [OF m1] and e2 = measure_into_effect [OF m2]
    and e3 = measure_into_effect [OF m3] and e4 = measure_into_effect [OF m4]
    and e5 = measure_into_effect [OF m5]
  from e1 obtain t0 o0 where r1: "r1 = [(''init'', t0), (''read_k'', None), (''read_d'', None),
      (''write_k'', None), (''write_d'', None)]" and t1: "trace w1 = trace w @ [Timed init_stmt g o0]"
    by (auto simp: results_init_def)
  from e2 obtain t1 o1 where r2: "r2 = [(''init'', t0), (''read_k'', t1), (''read_d'', None),
      (''write_k'', None), (''write_d'', None)]" and c1: "if c1 then True else t1 = None"
      and t2: "trace w2 = trace w1 @ (if c1 then [Timed read_key_stmt ge o1] else [])"
    unfolding r1 by (cases c1) auto
  from e3 obtain t2 o2 where r3: "r3 = [(''init'', t0), (''read_k'', t1), (''read_d'', t2),
      (''write_k'', None), (''write_d'', None)]" and c2: "if c2 then True else t2 = None"
      and t3: "trace w3 = trace w2 @ (if c2 then [Timed read_dot_stmt ge o2] else [])"
    unfolding r2 by (cases c2) auto
  from e4 obtain t3 o3 where r4: "r4 = [(''init'', t0), (''read_k'', t1), (''read_d'', t2),
      (''write_k'', t3), (''write_d'', None)]" and c3: "if c1 then True else t3 = None"
      and t4: "trace w4 = trace w3 @ (if c1 then [Timed write_key_stmt ge o3] else [])"
    unfolding r3 by (cases c1) auto
  from e5 obtain t4 o4 where r5: "results = [(''init'', t0), (''read_k'', t1), (''read_d'', t2),
      (''write_k'', t3), (''write_d'', t4)]" and c4: "if c2 then True else t4 = None"
      and t5: "trace w5 = trace w4 @ (if c2 then [Timed write_dot_stmt ge o4] else [])"
    unfolding r4 by (cases c2) auto
  have so: "stdout w5 = stdout w"
    using e1 e2 e3 e4 e5 by simp
  have tr: "trace w5 =
             trace w @ [Timed init_stmt g o0] @
             (if c1 then [Timed read_key_stmt ge o1] else []) @
             (if c2 then [Timed read_dot_stmt ge o2] else []) @
             (if c1 then [Timed write_key_stmt ge o3] else []) @
             (if c2 then [Timed write_dot_stmt ge o4] else [])"
    unfolding t5 t4 t3 t2 t1 by simp
  have cc1: "if c1 then True else t1 = None \<and> t3 = None" using c1 c3 by (simp split: if_splits)
  have cc2: "if c2 then True else t2 = None \<and> t4 = None" using c2 c4 by (simp split: if_splits)
  from r5 cc1 cc2 so tr show ?thesis by blast
qed

lemma bench_row_results:
  assumes "fst (bench_row env g instances (name, init_stmt, sk, sd) w) = Inr (Some results)"
  defines "obj \<equiv> (case map_of instances name of Some v \<Rightarrow> v | None \<Rightarrow> VNone)"
  shows "\<exists>t0 t1 t2 t3 t4 o0 o1 o2 o3 o4.
           results = [(''init'', t0), (''read_k'', t1), (''read_d'', t2), (''write_k'', t3),
                      (''write_d'', t4)] \<and>
           (if sk \<and> obj \<noteq> VNone then True else t1 = None \<and> t3 = None) \<and>
           (if sd \<and> obj \<noteq> VNone then True else t2 = None \<and> t4 = None) \<and>
           stdout (snd (bench_row env g instances (name, init_stmt, sk, sd) w)) =
             stdout w @ [row_line name [format_res t0, format_res t1, format_res t2,
                                        format_res t3, format_res t4]] \<and>
           trace (snd (bench_row env g instances (name, init_stmt, sk, sd) w)) =
             trace w @ [Timed init_stmt g o0] @
             (if sk \<and> obj \<noteq> VNone then [Timed read_key_stmt [(''obj'', obj)] o1] else []) @
             (if sd \<and> obj \<noteq> VNone then [Timed read_dot_stmt [(''obj'', obj)] o2] else []) @
             (if sk \<and> obj \<noteq> VNone then [Timed write_key_stmt [(''obj'', obj)] o3] else []) @
             (if sd \<and> obj \<noteq> VNone then [Timed write_dot_stmt [(''obj'', obj)] o4] else [])"
proof -
  from bench_row_run [OF assms(1)] obtain r1 w1 r2 w2 r3 w3 r4 w4 w5 cells where
    m1: "measure_into env True ''init'' init_stmt g results_init w = (Inr r1, w1)" and
    m2: "measure_into env (sk \<and> obj \<noteq> VNone) ''read_k'' read_key_stmt [(''obj'', obj)] r1 w1 = (Inr r2, w2)" and
    m3: "measure_into env (sd \<and> obj \<noteq> VNone) ''read_d'' read_dot_stmt [(''obj'', obj)] r2 w2 = (Inr r3, w3)" and
    m4: "measure_into env (sk \<and> obj \<noteq> VNone) ''write_k'' write_key_stmt [(''obj'', obj)] r3 w3 = (Inr r4, w4)" and
    m5: "measure_into env (sd \<and> obj \<noteq> VNone) ''write_d'' write_dot_stmt [(''obj'', obj)] r4 w4 = (Inr results, w5)" and
    rc: "row_cells results = Inr cells" and
    out: "snd (bench_row env g instances (name, init_stmt, sk, sd) w) = w5\<lparr>stdout := stdout w5 @ [row_line name cells]\<rparr>"
    unfolding obj_def by blast
  from measure_chain [OF m1 m2 m3 m4 m5] obtain t0 t1 t2 t3 t4 o0 o1 o2 o3 o4 where
    r5: "results = [(''init'', t0), (''read_k'', t1), (''read_d'', t2), (''write_k'', t3),
                    (''write_d'', t4)]" and
    cc1: "if sk \<and> obj \<noteq> VNone then True else t1 = None \<and> t3 = None" and
    cc2: "if sd \<and> obj \<noteq> VNone then True else t2 = None \<and> t4 = None" and
    so: "stdout w5 = stdout w" and
    tr: "trace w5 =
             trace w @ [Timed init_stmt g o0] @
             (if sk \<and> obj \<noteq> VNone then [Timed read_key_stmt [(''obj'', obj)] o1] else []) @
             (if sd \<and> obj \<noteq> VNone then [Timed read_dot_stmt [(''obj'', obj)] o2] else []) @
             (if sk \<and> obj \<noteq> VNone then [Timed write_key_stmt [(''obj'', obj)] o3] else []) @
             (if sd \<and> obj \<noteq> VNone then [Timed write_dot_stmt [(''obj'', obj)] o4] else [])"
    by blast
  have cells: "cells = [format_res t0, format_res t1, format_res t2, format_res t3, format_res t4]"
    using rc unfolding r5 by (simp add: row_cells_def get_result_def)
  have so': "stdout (snd (bench_row env g instances (name, init_stmt, sk, sd) w)) =
             stdout w @ [row_line name [format_res t0, format_res t1, format_res t2,
                                        format_res t3, format_res t4]]"
    unfolding out using so cells by simp
  have tr': "trace (snd (bench_row env g instances (name, init_stmt, sk, sd) w)) = trace w5"
    unfolding out by simp
  from r5 cc1 cc2 so' tr' [unfolded tr] show ?thesis by blast
qed

lemma measure_into_total:
  assumes "s = read_key_stmt \<or> s = read_dot_stmt \<or> s = write_key_stmt \<or> s = write_dot_stmt"
  shows "\<exists>r' w'. measure_into env c key s g res w = (Inr r', w')"
proof -
  from run_access_total [OF assms, of env g w] obtain t where "fst (run env s Pass g w) = Inr t"
    by blast
  then obtain w1 where "run env s Pass g w = (Inr t, w1)"
    by (cases "run env s Pass g w") simp
  then show ?thesis unfolding measure_into_def by (cases c) auto
qed

lemma bench_row_completes:
  assumes ns: "(map_of instances name = None \<and> name \<noteq> ''dict'' \<and> name \<noteq> ''Attrs'') = False"
      and init: "fst (run env init_stmt Pass g w) = Inr t0"
  shows "\<exists>results. fst (bench_row env g instances (name, init_stmt, sk, sd) w) = Inr (Some results)"
proof -
  define obj where "obj = (case map_of instances name of Some v \<Rightarrow> v | None \<Rightarrow> VNone)"
  define ge where "ge = [(''obj'', obj)]"
  from init obtain w1' where "run env init_stmt Pass g w = (Inr t0, w1')"
    by (cases "run env init_stmt Pass g w") simp
  then obtain r1 w1 where
    m1: "measure_into env True ''init'' init_stmt g results_init w = (Inr r1, w1)"
    unfolding measure_into_def by auto
  obtain r2 w2 where
    m2: "measure_into env (sk \<and> obj \<noteq> VNone) ''read_k'' read_key_stmt ge r1 w1 = (Inr r2, w2)"
    using measure_into_total [of read_key_stmt] by blast
  obtain r3 w3 where
    m3: "measure_into env (sd \<and> obj \<noteq> VNone) ''read_d'' read_dot_stmt ge r2 w2 = (Inr r3, w3)"
    using measure_into_total [of read_dot_stmt] by blast
  obtain r4 w4 where
    m4: "measure_into env (sk \<and> obj \<noteq> VNone) ''write_k'' write_key_stmt ge r3 w3 = (Inr r4, w4)"
    using measure_into_total [of write_key_stmt] by blast
  obtain r5 w5 where
    m5: "measure_into env (sd \<and> obj \<noteq> VNone) ''write_d'' write_dot_stmt ge r4 w4 = (Inr r5, w5)"
    using measure_into_total [of write_dot_stmt] by blast
  from measure_chain [OF m1 m2 m3 m4 m5] obtain t0 t1 t2 t3 t4 where
    r5: "r5 = [(''init'', t0), (''read_k'', t1), (''read_d'', t2), (''write_k'', t3), (''write_d'', t4)]"
    by blast
  have rc: "row_cells r5 =
      Inr [format_res t0, format_res t1, format_res t2, format_res t3, format_res t4]"
    unfolding r5 by (simp add: row_cells_def get_result_def)
  have "fst (bench_row env g instances (name, init_stmt, sk, sd) w) = Inr (Some r5)"
    unfolding bench_row_def Let_def prod.case ns if_False
    unfolding obj_def [symmetric] ge_def [symmetric]
    by (simp add: m1 m2 m3 m4 m5 rc)
  then show ?thesis by blast
qed

subsection \<open>Rows of the report\<close>

lemmas lattix_defs =
  globals_lattix_def instances_lattix_def heap_lattix_def world_lattix_def dict_row_def
  lattix_row_def attrs_row_def

lemma module_init_lattix:
  "module_init env_lattix [] = (Inr (globals_lattix, instances_lattix), heap_lattix)"
  by (simp add: model_defs env_defs lattix_defs)

lemma rows_in_libs: "dict_row = libs ! 0" "lattix_row = libs ! 1" "attrs_row = libs ! 6"
  by (simp_all add: libs_def lattix_defs)

lemma bench_row_dict_lattix:
  "fst (bench_row env_lattix globals_lattix instances_lattix
         (''dict'', Expr (Call (Name ''dict'') [Name ''raw_data''] []), True, False) world_lattix) =
   Inr (Some [(''init'', Some (PyFloat False 1 (- 3))), (''read_k'', Some (PyFloat False 2 (- 3))),
              (''read_d'', None), (''write_k'', Some (PyFloat False 3 (- 3))), (''write_d'', None)])"
  by (simp add: model_defs env_defs lattix_defs repeat_unfold)


text \<open>
  Claim C7. In every row produced, an implementation registered without key support has
  no result for the key read and the key write, and one registered without dot support
  has none for the dot read and the dot write, whatever the construction did; the cells
  printed for them are the marker \<^verbatim>\<open>N/A\<close>.
\<close>

theorem unsupported_style_not_applicable:
  assumes "fst (bench_row env g instances (name, init_stmt, support_key, support_dot) w) =
             Inr (Some results)"
  shows "(\<not> support_key \<longrightarrow>
            map_of results ''read_k'' = Some None \<and> map_of results ''write_k'' = Some None \<and>
            format_res None = ''N/A'') \<and>
         (\<not> support_dot \<longrightarrow>
            map_of results ''read_d'' = Some None \<and> map_of results ''write_d'' = Some None \<and>
            format_res None = ''N/A'') \<and>
         row_cells results = Inr (map (\<lambda>kt. format_res (snd kt)) results) \<and>
         stdout (snd (bench_row env g instances (name, init_stmt, support_key, support_dot) w)) =
           stdout w @ [row_line name (map (\<lambda>kt. format_res (snd kt)) results)]"
  using bench_row_results [OF assms]
  by (auto simp: format_res_def row_cells_def get_result_def)

theorem unsupported_style_not_applicable_witness:
  "fst (bench_row env_lattix globals_lattix instances_lattix
         (''dict'', Expr (Call (Name ''dict'') [Name ''raw_data''] []), True, False) world_lattix) =
     Inr (Some [(''init'', Some (PyFloat False 1 (- 3))), (''read_k'', Some (PyFloat False 2 (- 3))),
                (''read_d'', None), (''write_k'', Some (PyFloat False 3 (- 3))),
                (''write_d'', None)]) \<and>
   map_of [(''init'', Some (PyFloat False 1 (- 3))), (''read_k'', Some (PyFloat False 2 (- 3))),
           (''read_d'', None), (''write_k'', Some (PyFloat False 3 (- 3))), (''write_d'', None)]
     ''read_d'' = Some None \<and>
   map_of [(''init'', Some (PyFloat False 1 (- 3))), (''read_k'', Some (PyFloat False 2 (- 3))),
           (''read_d'', None), (''write_k'', Some (PyFloat False 3 (- 3))), (''write_d'', None)]
     ''write_d'' = Some None"
  using bench_row_dict_lattix unsupported_style_not_applicable [OF bench_row_dict_lattix]
  by simp

lemma bench_row_absent:
  assumes "map_of instances name = None"
  shows "(if name = ''dict'' \<or> name = ''Attrs''
          then bench_row env g instances (name, init_stmt, support_key, support_dot) w =
                 (case run env init_stmt Pass g w of
                    (Inl x, w1) \<Rightarrow> (Inl x, w1)
                  | (Inr t, w1) \<Rightarrow>
                      (Inr (Some [(''init'', t), (''read_k'', None), (''read_d'', None),
                                  (''write_k'', None), (''write_d'', None)]),
                       w1\<lparr>stdout := stdout w1 @
                            [row_line name [format_res t, ''N/A'', ''N/A'', ''N/A'', ''N/A'']]\<rparr>))
          else bench_row env g instances (name, init_stmt, support_key, support_dot) w =
                 (Inr None, w))"
  using assms
  unfolding bench_row_def measure_into_def
  by (auto split: prod.splits sum.splits
      simp: results_init_def row_cells_def get_result_def format_res_def)

text \<open>
  Claim C10. For a name with no entry in \<^verbatim>\<open>instances\<close>: if the name is \<^verbatim>\<open>dict\<close> or
  \<^verbatim>\<open>Attrs\<close> the row is processed: the init statement is timed, nothing else is, and
  the four read and write results are \<^verbatim>\<open>None\<close>, printed as \<^verbatim>\<open>N/A\<close>; for any other
  name the iteration is skipped: nothing is timed and nothing is printed.
\<close>

theorem absent_instance_row:
  assumes "map_of instances name = None"
  shows "(if name = ''dict'' \<or> name = ''Attrs''
          then bench_row env g instances (name, init_stmt, support_key, support_dot) w =
                 (case run env init_stmt Pass g w of
                    (Inl x, w1) \<Rightarrow> (Inl x, w1)
                  | (Inr t, w1) \<Rightarrow>
                      (Inr (Some [(''init'', t), (''read_k'', None), (''read_d'', None),
                                  (''write_k'', None), (''write_d'', None)]),
                       w1\<lparr>stdout := stdout w1 @
                            [row_line name [format_res t, ''N/A'', ''N/A'', ''N/A'', ''N/A'']]\<rparr>))
          else bench_row env g instances (name, init_stmt, support_key, support_dot) w =
                 (Inr None, w))"
  using assms by (rule bench_row_absent)

lemma run_init_attrs_lattix:
  "run env_lattix
     (Expr (Call (Name ''AttrsL1'') []
        [(''level1'', Call (Name ''AttrsL2'') []
           [(''level2'', Call (Name ''AttrsL3'') [] [(''level3'', IntC 100)])])]))
     Pass globals_lattix world_lattix =
   (Inr (Some (PyFloat False 1 (- 3))),
    world_lattix\<lparr>ticks := 1, trace :=
      [Timed (Expr (Call (Name ''AttrsL1'') []
        [(''level1'', Call (Name ''AttrsL2'') []
           [(''level2'', Call (Name ''AttrsL3'') [] [(''level3'', IntC 100)])])]))
        globals_lattix [VRef 14]]\<rparr>)"
  by (simp add: model_defs env_defs lattix_defs repeat_unfold)

theorem absent_instance_row_witness:
  "map_of instances_lattix ''Box'' = None \<and>
   bench_row env_lattix globals_lattix instances_lattix
     (''Box'', Expr (Call (Name ''Box'') [Name ''raw_data''] []), True, True) world_lattix =
     (Inr None, world_lattix) \<and>
   map_of [(''dict'', VRef 5)] ''Attrs'' = None \<and>
   fst (bench_row env_lattix globals_lattix [(''dict'', VRef 5)] attrs_row world_lattix) =
     Inr (Some [(''init'', Some (PyFloat False 1 (- 3))), (''read_k'', None), (''read_d'', None),
                (''write_k'', None), (''write_d'', None)]) \<and>
   map timed_stmt
     (trace (snd (bench_row env_lattix globals_lattix [(''dict'', VRef 5)] attrs_row world_lattix))) =
     [fst (snd attrs_row)]"
proof -
  have a: "map_of instances_lattix ''Box'' = None"
    by (simp add: instances_lattix_def)
  have b: "map_of [(''dict'', VRef 5)] ''Attrs'' = (None :: pyval option)"
    by simp
  show ?thesis
    using a b
      absent_instance_row [OF a, of env_lattix globals_lattix
        "Expr (Call (Name ''Box'') [Name ''raw_data''] [])" True True world_lattix]
      absent_instance_row [OF b, of env_lattix globals_lattix "fst (snd attrs_row)" False True
        world_lattix]
    by (simp add: attrs_row_def run_init_attrs_lattix)
qed

subsection \<open>The effect of a row on the heap and on the log\<close>

lemma exec_read_key_doc:
  assumes "doc_at h a i" and "exec env [(''obj'', VRef a)] read_key_stmt h = (r, h')"
  shows "h' = h \<and> (r = Inr (VInt i) \<or> (\<exists>x. r = Inl x))"
  using assms unfolding doc_at_def read_key_stmt_def
  by (auto simp: lookup_name_def py_getitem_def lookup_obj_def split: if_splits)

lemma exec_read_dot_doc:
  assumes "doc_at h a i" and "exec env [(''obj'', VRef a)] read_dot_stmt h = (r, h')"
  shows "h' = h \<and> (r = Inr (VInt i) \<or> (\<exists>x. r = Inl x))"
  using assms unfolding doc_at_def read_dot_stmt_def
  by (auto simp: lookup_name_def py_getattr_def lookup_obj_def split: if_splits)

lemma exec_write_key_doc:
  assumes "doc_at h a i" and "exec env [(''obj'', VRef a)] write_key_stmt h = (r, h')"
  shows "leaf_changed h a h'"
  using assms unfolding doc_at_def write_key_stmt_def leaf_changed_def
  by (auto simp: lookup_name_def py_getitem_def py_setitem_def lookup_obj_def split: if_splits)

lemma exec_write_dot_doc:
  assumes "doc_at h a i" and "exec env [(''obj'', VRef a)] write_dot_stmt h = (r, h')"
  shows "leaf_changed h a h'"
  using assms unfolding doc_at_def write_dot_stmt_def leaf_changed_def
  by (auto simp: lookup_name_def py_getattr_def py_setattr_def lookup_obj_def split: if_splits)

lemma run_world:
  assumes "run env s Pass g w = (r, w')"
  shows "heap w' = fst (snd (repeat ITER_N (exec env g s) (heap w) [])) \<and>
         trace w' = trace w @ [Timed s g (snd (snd (repeat ITER_N (exec env g s) (heap w) [])))] \<and>
         stdout w' = stdout w"
proof -
  obtain x h obs where l: "repeat ITER_N (exec env g s) (heap w) [] = (x, h, obs)"
    by (cases "repeat ITER_N (exec env g s) (heap w) []")
  show ?thesis
    using assms unfolding run_def timeit_def l
    by (cases x) (auto simp: l split: if_splits)
qed

lemma run_Expr_heap:
  assumes "run env (Expr e) Pass g w = (r, w')"
  shows "heap w' = heap w"
proof -
  have "fst (snd (repeat ITER_N (exec env g (Expr e)) (heap w) [])) = heap w"
  proof (rule repeat_invariant [where P = "\<lambda>h. h = heap w"])
    fix h r h'
    assume "h = heap w" and "exec env g (Expr e) h = (r, h')"
    then show "h' = heap w" using exec_Expr_heap by blast
  qed simp
  with run_world [OF assms] show ?thesis by simp
qed

lemma run_read_doc:
  assumes s: "s = read_key_stmt \<or> s = read_dot_stmt"
      and d: "doc_at (heap w) a i"
      and r: "run env s Pass [(''obj'', VRef a)] w = (r, w')"
  shows "heap w' = heap w \<and>
         (\<exists>obs. trace w' = trace w @ [Timed s [(''obj'', VRef a)] obs] \<and>
                list_all (\<lambda>v. v = VInt i) obs)"
proof -
  let ?f = "exec env [(''obj'', VRef a)] s"
  have step: "h = heap w \<Longrightarrow> ?f h = (r', h') \<Longrightarrow> h' = heap w \<and> (r' = Inr (VInt i) \<or> (\<exists>x. r' = Inl x))"
    for h r' h'
    using s d exec_read_key_doc [of "heap w" a i env r' h'] exec_read_dot_doc [of "heap w" a i env r' h']
    by auto
  have h: "fst (snd (repeat ITER_N ?f (heap w) [])) = heap w"
    by (rule repeat_invariant [where P = "\<lambda>h. h = heap w"]) (use step in auto)
  have o: "list_all (\<lambda>v. v = VInt i) (snd (snd (repeat ITER_N ?f (heap w) [])))"
    by (rule repeat_observed [where P = "\<lambda>h. h = heap w"]) (use step in auto)
  from run_world [OF r] h o show ?thesis by simp
qed

lemma run_write_doc:
  assumes s: "s = write_key_stmt \<or> s = write_dot_stmt"
      and d: "doc_at (heap w) a i"
      and r: "run env s Pass [(''obj'', VRef a)] w = (r, w')"
  shows "leaf_changed (heap w) a (heap w') \<and>
         (\<exists>obs. trace w' = trace w @ [Timed s [(''obj'', VRef a)] obs])"
proof -
  let ?f = "exec env [(''obj'', VRef a)] s"
  have step: "leaf_changed (heap w) a h'" if "leaf_changed (heap w) a h" and "?f h = (r', h')"
    for h r' h'
  proof -
    from leaf_changed_doc [OF d that(1)] obtain i' where "doc_at h a i'" by blast
    then have "leaf_changed h a h'"
      using s that(2) exec_write_key_doc [of h a i' env r' h'] exec_write_dot_doc [of h a i' env r' h']
      by auto
    with that(1) show ?thesis by (rule leaf_changed_trans)
  qed
  have "leaf_changed (heap w) a (fst (snd (repeat ITER_N ?f (heap w) [])))"
    by (rule repeat_invariant [where P = "leaf_changed (heap w) a"])
      (use step leaf_changed_refl [OF d] in auto)
  with run_world [OF r] show ?thesis by simp
qed

lemma is_read_simps [simp]:
  "is_read (Timed read_key_stmt g obs)" "is_read (Timed read_dot_stmt g obs)"
  "\<not> is_read (Timed write_key_stmt g obs)" "\<not> is_read (Timed write_dot_stmt g obs)"
  "\<not> is_read (Timed (Expr (Call f as ks)) g obs)"
  by (simp_all add: is_read_def read_key_stmt_def read_dot_stmt_def write_key_stmt_def
      write_dot_stmt_def)

lemma is_write_simps [simp]:
  "is_write (Timed write_key_stmt g obs)" "is_write (Timed write_dot_stmt g obs)"
  "\<not> is_write (Timed read_key_stmt g obs)" "\<not> is_write (Timed read_dot_stmt g obs)"
  "\<not> is_write (Timed (Expr e) g obs)"
  by (simp_all add: is_write_def read_key_stmt_def read_dot_stmt_def write_key_stmt_def
      write_dot_stmt_def)

lemma bench_row_outcome:
  assumes ns: "(map_of instances name = None \<and> name \<noteq> ''dict'' \<and> name \<noteq> ''Attrs'') = False"
  shows "(\<exists>x w1. run env init_stmt Pass g w = (Inl x, w1) \<and>
                 bench_row env g instances (name, init_stmt, sk, sd) w = (Inl x, w1)) \<or>
         (\<exists>results. fst (bench_row env g instances (name, init_stmt, sk, sd) w) = Inr (Some results))"
proof -
  obtain r0 w1 where r: "run env init_stmt Pass g w = (r0, w1)"
    by (cases "run env init_stmt Pass g w")
  show ?thesis
  proof (cases r0)
    case (Inl x)
    have "bench_row env g instances (name, init_stmt, sk, sd) w = (Inl x, w1)"
      unfolding bench_row_def prod.case ns if_False
      by (simp add: measure_into_def r Inl)
    with r Inl show ?thesis by blast
  next
    case (Inr t)
    with r have "fst (run env init_stmt Pass g w) = Inr t" by simp
    from bench_row_completes [OF ns this] show ?thesis by blast
  qed
qed

lemma measure_into_init:
  assumes "measure_into env True key (Expr e) g res w = (Inr res', w')"
  shows "heap w' = heap w \<and> (\<exists>obs. trace w' = trace w @ [Timed (Expr e) g obs])"
proof -
  from assms obtain t where r: "run env (Expr e) Pass g w = (Inr t, w')"
    unfolding measure_into_def by (auto split: prod.splits sum.splits)
  from run_Expr_heap [OF r] run_effect [OF r] show ?thesis by simp
qed

lemma measure_into_read:
  assumes s: "s = read_key_stmt \<or> s = read_dot_stmt"
      and d: "doc_at (heap w) a i"
      and m: "measure_into env c key s [(''obj'', VRef a)] res w = (Inr res', w')"
  shows "heap w' = heap w \<and>
         (\<exists>evs. trace w' = trace w @ evs \<and>
            (\<forall>e \<in> set evs. is_read e \<and> timed_globals e = [(''obj'', VRef a)] \<and>
                             list_all (\<lambda>v. v = VInt i) (observed e)))"
proof (cases c)
  case True
  with m obtain t where r: "run env s Pass [(''obj'', VRef a)] w = (Inr t, w')"
    unfolding measure_into_def by (auto split: prod.splits sum.splits)
  from run_read_doc [OF s d r] obtain obs where
    "heap w' = heap w" "trace w' = trace w @ [Timed s [(''obj'', VRef a)] obs]"
    "list_all (\<lambda>v. v = VInt i) obs" by blast
  then show ?thesis using s by (auto simp: is_read_def)
next
  case False
  with m show ?thesis unfolding measure_into_def by simp
qed

lemma measure_into_write:
  assumes s: "s = write_key_stmt \<or> s = write_dot_stmt"
      and d: "doc_at (heap w) a i"
      and m: "measure_into env c key s [(''obj'', VRef a)] res w = (Inr res', w')"
  shows "leaf_changed (heap w) a (heap w') \<and>
         (\<exists>evs. trace w' = trace w @ evs \<and>
            (\<forall>e \<in> set evs. is_write e \<and> timed_globals e = [(''obj'', VRef a)]))"
proof (cases c)
  case True
  with m obtain t where r: "run env s Pass [(''obj'', VRef a)] w = (Inr t, w')"
    unfolding measure_into_def by (auto split: prod.splits sum.splits)
  from run_write_doc [OF s d r] obtain obs where
    "leaf_changed (heap w) a (heap w')" "trace w' = trace w @ [Timed s [(''obj'', VRef a)] obs]"
    by blast
  then show ?thesis using s by (auto simp: is_write_def)
next
  case False
  with m show ?thesis unfolding measure_into_def
    using leaf_changed_refl [OF d] by simp
qed

lemma bench_row_effect:
  assumes b: "bench_row env g instances (name, Expr (Call f as ks), sk, sd) w = (r, w')"
      and m: "map_of instances name = Some (VRef a)"
      and d: "doc_at (heap w) a i"
  shows "leaf_changed (heap w) a (heap w') \<and>
         (\<exists>evs. trace w' = trace w @ evs \<and> row_events a i evs)"
proof -
  let ?init = "Expr (Call f as ks)"
  let ?ge = "[(''obj'', VRef a)]"
  from m have ns: "(map_of instances name = None \<and> name \<noteq> ''dict'' \<and> name \<noteq> ''Attrs'') = False"
    by simp
  from bench_row_outcome [OF ns, of env ?init g w sk sd]
  consider (abort) x w1 where "run env ?init Pass g w = (Inl x, w1)"
      "bench_row env g instances (name, ?init, sk, sd) w = (Inl x, w1)"
    | (complete) results where
      "fst (bench_row env g instances (name, ?init, sk, sd) w) = Inr (Some results)"
    by blast
  then show ?thesis
  proof cases
    case abort
    with b have w': "w' = w1" by simp
    from run_Expr_heap [OF abort(1)] run_effect [OF abort(1)] obtain obs where
      "heap w1 = heap w" "trace w1 = trace w @ [Timed ?init g obs]" by auto
    then show ?thesis
      unfolding w' row_events_def using leaf_changed_refl [OF d]
      by (auto intro!: exI [of _ "Timed ?init g obs"] exI [of _ "[]"])
  next
    case complete
    from bench_row_run [OF complete] m obtain r1 w1 r2 w2 r3 w3 r4 w4 w5 cells where
      m1: "measure_into env True ''init'' ?init g results_init w = (Inr r1, w1)" and
      m2: "measure_into env (sk \<and> VRef a \<noteq> VNone) ''read_k'' read_key_stmt ?ge r1 w1 = (Inr r2, w2)" and
      m3: "measure_into env (sd \<and> VRef a \<noteq> VNone) ''read_d'' read_dot_stmt ?ge r2 w2 = (Inr r3, w3)" and
      m4: "measure_into env (sk \<and> VRef a \<noteq> VNone) ''write_k'' write_key_stmt ?ge r3 w3 = (Inr r4, w4)" and
      m5: "measure_into env (sd \<and> VRef a \<noteq> VNone) ''write_d'' write_dot_stmt ?ge r4 w4 = (Inr results, w5)" and
      out: "snd (bench_row env g instances (name, ?init, sk, sd) w) = w5\<lparr>stdout := stdout w5 @ [row_line name cells]\<rparr>"
      by auto
    from measure_into_init [OF m1] obtain o0 where
      h1: "heap w1 = heap w" and t1: "trace w1 = trace w @ [Timed ?init g o0]" by blast
    from d h1 have d1: "doc_at (heap w1) a i" by simp
    from measure_into_read [OF _ d1 m2] obtain ev2 where
      h2: "heap w2 = heap w1" and t2: "trace w2 = trace w1 @ ev2" and
      p2: "\<forall>e \<in> set ev2. is_read e \<and> timed_globals e = ?ge \<and> list_all (\<lambda>v. v = VInt i) (observed e)"
      by blast
    from d1 h2 have d2: "doc_at (heap w2) a i" by simp
    from measure_into_read [OF _ d2 m3] obtain ev3 where
      h3: "heap w3 = heap w2" and t3: "trace w3 = trace w2 @ ev3" and
      p3: "\<forall>e \<in> set ev3. is_read e \<and> timed_globals e = ?ge \<and> list_all (\<lambda>v. v = VInt i) (observed e)"
      by blast
    from d2 h3 have d3: "doc_at (heap w3) a i" by simp
    from measure_into_write [OF _ d3 m4] obtain ev4 where
      h4: "leaf_changed (heap w3) a (heap w4)" and t4: "trace w4 = trace w3 @ ev4" and
      p4: "\<forall>e \<in> set ev4. is_write e \<and> timed_globals e = ?ge"
      by blast
    from leaf_changed_doc [OF d3 h4] obtain i4 where d4: "doc_at (heap w4) a i4" by blast
    from measure_into_write [OF _ d4 m5] obtain ev5 where
      h5: "leaf_changed (heap w4) a (heap w5)" and t5: "trace w5 = trace w4 @ ev5" and
      p5: "\<forall>e \<in> set ev5. is_write e \<and> timed_globals e = ?ge"
      by blast
    from b out have w': "w' = w5\<lparr>stdout := stdout w5 @ [row_line name cells]\<rparr>" by simp
    have hh: "leaf_changed (heap w) a (heap w')"
      using leaf_changed_trans [OF h4 h5] h1 h2 h3 unfolding w' by simp
    have tt: "trace w' = trace w @ (Timed ?init g o0 # (ev2 @ ev3) @ (ev4 @ ev5))"
      unfolding w' using t1 t2 t3 t4 t5 by simp
    have "row_events a i (Timed ?init g o0 # (ev2 @ ev3) @ (ev4 @ ev5))"
      unfolding row_events_def
      using p2 p3 p4 p5
      by (intro exI [of _ "Timed ?init g o0"] exI [of _ "ev2 @ ev3"] exI [of _ "ev4 @ ev5"]) auto
    with hh tt show ?thesis by blast
  qed
qed

lemma bench_row_effect_none:
  assumes b: "bench_row env g instances (name, Expr (Call f as ks), sk, sd) w = (r, w')"
      and m: "map_of instances name = None"
  shows "heap w' = heap w \<and>
         (trace w' = trace w \<or> (\<exists>obs. trace w' = trace w @ [Timed (Expr (Call f as ks)) g obs]))"
proof -
  let ?init = "Expr (Call f as ks)"
  obtain r0 w1 where r: "run env ?init Pass g w = (r0, w1)"
    by (cases "run env ?init Pass g w")
  from run_Expr_heap [OF r] run_effect [OF r] obtain obs where
    e: "heap w1 = heap w" "trace w1 = trace w @ [Timed ?init g obs]" by auto
  from bench_row_absent [OF m, where env = env and g = g and init_stmt = ?init
      and support_key = sk and support_dot = sd and w = w] b r e show ?thesis
    by (cases r0) (auto split: if_splits)
qed

lemma lookup_raw_data: "lookup_name (module_globals env) ''raw_data'' = Some (VRef 2)"
  by (simp add: module_globals_def lookup_name_def update_conv')

lemma lookup_collab:
  assumes "c \<in> {''Lattix'', ''EasyDict'', ''Addict'', ''Box'', ''TreeDict'', ''DottedDict''}"
  shows "lookup_name (module_globals env) c =
           Some (if importable (collabs env c) then VClass c else VNone)"
  using assms
  by (auto simp: module_globals_def lookup_name_def update_conv' import_libraries_def
      try_import_def)

lemma lookup_attrs:
  assumes "c \<in> {''AttrsL1'', ''AttrsL2'', ''AttrsL3''}"
  shows "lookup_name (module_globals env) c =
           (if attrs_importable env then Some (VClass c) else None)"
  using assms
  by (auto simp: module_globals_def lookup_name_def update_conv' import_libraries_def
      try_import_def builtins_def)

lemma instances_ok_read:
  assumes "instances_ok h insts"
  shows "read_document h (VRef 2) = Some 100" and "3 \<le> length h"
proof -
  from assms have t: "take 3 h = doc_cells ''dict'' ''dict'' ''dict'' 0"
    unfolding instances_ok_def by simp
  then have "length (take 3 h) = 3" by (simp add: doc_cells_def)
  then show l: "3 \<le> length h" by simp
  have n: "h ! 0 = take 3 h ! 0" "h ! 1 = take 3 h ! 1" "h ! 2 = take 3 h ! 2"
    by simp_all
  show "read_document h (VRef 2) = Some 100"
    using l n unfolding t
    by (auto simp: read_document_def dict_entry_def lookup_obj_def doc_cells_def)
qed

lemma doc_at_append: "doc_at h a i \<Longrightarrow> doc_at (h @ ys) a i"
  unfolding doc_at_def by (auto simp: nth_append)

lemma doc_at_new: "doc_at (h @ doc_cells c3 c2 c1 (length h)) (length h + 2) 100"
  unfolding doc_at_def doc_cells_def by (simp add: nth_append)

lemma instances_ok_extend:
  assumes "instances_ok h insts"
  shows "instances_ok (h @ doc_cells c3 c2 c1 (length h)) (AList.update key (VRef (length h + 2)) insts)"
proof -
  let ?h = "h @ doc_cells c3 c2 c1 (length h)"
  let ?a = "length h + 2"
  from assms have l: "length h mod 3 = 0" and t: "take 3 h = doc_cells ''dict'' ''dict'' ''dict'' 0"
    and old: "\<And>n v. map_of insts n = Some v \<Longrightarrow>
         \<exists>a. v = VRef a \<and> 5 \<le> a \<and> a mod 3 = 2 \<and> a < length h \<and> doc_at h a 100"
    and inj: "\<And>n n' v. map_of insts n = Some v \<Longrightarrow> map_of insts n' = Some v \<Longrightarrow> n = n'"
    unfolding instances_ok_def by blast+
  from instances_ok_read(2) [OF assms] have l3: "3 \<le> length h" .
  have 1: "length ?h mod 3 = 0" using l by (simp add: doc_cells_def)
  have 2: "take 3 ?h = doc_cells ''dict'' ''dict'' ''dict'' 0" using t l3 by simp
  have 3: "\<exists>a. v = VRef a \<and> 5 \<le> a \<and> a mod 3 = 2 \<and> a < length ?h \<and> doc_at ?h a 100"
    if "map_of (AList.update key (VRef ?a) insts) n = Some v" for n v
  proof (cases "n = key")
    case True
    with that have "v = VRef ?a" by (simp add: update_conv')
    moreover have "?a mod 3 = 2" using l by presburger
    moreover have "5 \<le> ?a" using l3 by simp
    ultimately show ?thesis using doc_at_new [of h c3 c2 c1] by (simp add: doc_cells_def)
  next
    case False
    with that have "map_of insts n = Some v" by (simp add: update_conv')
    from old [OF this] show ?thesis by (auto simp: doc_at_append)
  qed
  have 4: "n = n'"
    if "map_of (AList.update key (VRef ?a) insts) n = Some v"
      and "map_of (AList.update key (VRef ?a) insts) n' = Some v" for n n' v
  proof -
    have fresh: "n = key" if "v = VRef ?a" "map_of (AList.update key (VRef ?a) insts) n = Some v" for n
    proof (rule ccontr)
      assume "n \<noteq> key"
      with that have "map_of insts n = Some (VRef ?a)" by (simp add: update_conv')
      from old [OF this] show False by simp
    qed
    show ?thesis
    proof (cases "v = VRef ?a")
      case True
      with fresh that show ?thesis by blast
    next
      case False
      with that have "n \<noteq> key" "n' \<noteq> key" by (auto simp: update_conv')
      with that have "map_of insts n = Some v" "map_of insts n' = Some v"
        by (simp_all add: update_conv')
      then show ?thesis by (rule inj)
    qed
  qed
  show ?thesis unfolding instances_ok_def using 1 2 3 4 by blast
qed

lemma eval_document:
  "eval env g document h = (Inr (VRef (length h + 2)), h @ doc_cells ''dict'' ''dict'' ''dict'' (length h))"
  by (simp add: document_def alloc_def dict_of_def doc_cells_def)

lemma eval_collab_ctor:
  assumes c: "c \<in> {''Lattix'', ''EasyDict'', ''Addict'', ''Box'', ''TreeDict'', ''DottedDict''}"
      and imp: "importable (collabs env c)"
      and ok: "instances_ok h insts"
      and ev: "eval env (module_globals env) (Call (Name c) [Name ''raw_data''] []) h = (Inr v, h')"
  shows "v = VRef (length h + 2) \<and> h' = h @ doc_cells c c c (length h)"
proof -
  have nd: "c \<noteq> ''dict''" "c \<noteq> ''AttrsL3''" "c \<noteq> ''AttrsL2''" "c \<noteq> ''AttrsL1''"
    using c by auto
  from ev show ?thesis
    by (simp add: lookup_collab [OF c] lookup_raw_data imp py_call_def nd new_collab_def
        instances_ok_read(1) [OF ok] alloc_document_def doc_cells_def
        split: option.splits)
qed

lemma eval_attrs_ctor:
  assumes imp: "attrs_importable env"
      and ev: "eval env (module_globals env)
                 (Call (Name ''AttrsL1'') []
                    [(''level1'', Call (Name ''AttrsL2'') []
                       [(''level2'', Call (Name ''AttrsL3'') [] [(''level3'', IntC 100)])])]) h
               = (Inr v, h')"
  shows "v = VRef (length h + 2) \<and> h' = h @ doc_cells ''AttrsL3'' ''AttrsL2'' ''AttrsL1'' (length h)"
  using ev
  by (simp add: lookup_attrs imp py_call_def new_AttrsL1_def new_AttrsL2_def new_AttrsL3_def
      bind_field_def alloc_def doc_cells_def)

lemma build_instances_invariant:
  assumes step: "\<And>cond key ctor insts h c h1.
      (cond, key, ctor) \<in> set specs \<Longrightarrow> I insts h \<Longrightarrow> eval env g cond h = (Inr c, h1) \<Longrightarrow>
      I insts h1 \<and>
      (\<forall>v h2. truthy h1 c \<longrightarrow> eval env g ctor h1 = (Inr v, h2) \<longrightarrow> I (AList.update key v insts) h2)"
    and "I insts h"
    and "build_instances env g specs insts h = (Inr insts', h')"
  shows "I insts' h'"
  using assms
proof (induction specs arbitrary: insts h)
  case Nil
  then show ?case by simp
next
  case (Cons spec specs)
  obtain cond key ctor where spec: "spec = (cond, key, ctor)" by (cases spec)
  obtain rc h1 where ec: "eval env g cond h = (rc, h1)" by (cases "eval env g cond h")
  from Cons.prems(3) ec spec obtain c where rc: "rc = Inr c" by (cases rc) auto
  have st: "I insts h1 \<and>
      (\<forall>v h2. truthy h1 c \<longrightarrow> eval env g ctor h1 = (Inr v, h2) \<longrightarrow> I (AList.update key v insts) h2)"
    using Cons.prems(1) [of cond key ctor insts h c h1] Cons.prems(2) ec rc spec by simp
  have step': "I insts h1 \<and>
      (\<forall>v h2. truthy h1 c \<longrightarrow> eval env g ctor h1 = (Inr v, h2) \<longrightarrow> I (AList.update key v insts) h2)"
    if "(cond, key, ctor) \<in> set specs" "I insts h" "eval env g cond h = (Inr c, h1)"
    for cond key ctor insts h c h1
    using Cons.prems(1) [of cond key ctor insts h c h1] that by simp
  show ?case
  proof (cases "truthy h1 c")
    case True
    obtain rv h2 where ev: "eval env g ctor h1 = (rv, h2)" by (cases "eval env g ctor h1")
    from Cons.prems(3) ec rc spec True ev obtain v where rv: "rv = Inr v" by (cases rv) auto
    from st True ev rv have i2: "I (AList.update key v insts) h2" by blast
    from Cons.prems(3) ec rc spec True ev rv
    have "build_instances env g specs (AList.update key v insts) h2 = (Inr insts', h')" by simp
    from Cons.IH [OF step' i2 this] show ?thesis .
  next
    case False
    from st have i1: "I insts h1" by blast
    from Cons.prems(3) ec rc spec False
    have "build_instances env g specs insts h1 = (Inr insts', h')" by simp
    from Cons.IH [OF step' i1 this] show ?thesis .
  qed
qed

lemma instance_specs_step:
  assumes sp: "(cond, key, ctor) \<in> set instance_specs"
      and ok: "instances_ok h insts"
      and ec: "eval env (module_globals env) cond h = (Inr c, h1)"
  shows "instances_ok h1 insts \<and>
      (\<forall>v h2. truthy h1 c \<longrightarrow> eval env (module_globals env) ctor h1 = (Inr v, h2) \<longrightarrow>
         instances_ok h2 (AList.update key v insts))"
proof -
  let ?g = "module_globals env"
  let ?P = "\<lambda>spec. case spec of (cond, key, ctor) \<Rightarrow>
      \<forall>c h1. eval env ?g cond h = (Inr c, h1) \<longrightarrow>
        instances_ok h1 insts \<and>
        (\<forall>v h2. truthy h1 c \<longrightarrow> eval env ?g ctor h1 = (Inr v, h2) \<longrightarrow>
           instances_ok h2 (AList.update key v insts))"
  have collab: "?P (Name c', key', Call (Name c') [Name ''raw_data''] [])"
    if c': "c' \<in> {''Lattix'', ''EasyDict'', ''Addict'', ''Box'', ''TreeDict'', ''DottedDict''}"
    for c' key'
  proof (cases "importable (collabs env c')")
    case True
    show ?thesis
      using eval_collab_ctor [OF c' True ok] instances_ok_extend [OF ok, of c' c' c' key'] ok
      by (auto simp: lookup_collab [OF c'] simp del: eval.simps(7))
  next
    case False
    then show ?thesis
      using ok by (auto simp: lookup_collab [OF c'] truthy_def simp del: eval.simps(7))
  qed
  have dict: "?P (BoolC True, ''dict'', document)"
    using instances_ok_extend [OF ok, of "''dict''" "''dict''" "''dict''" "''dict''"] ok
    by (auto simp: eval_document)
  have attrs: "?P (Name ''AttrsL1'', ''Attrs'',
      Call (Name ''AttrsL1'') []
        [(''level1'', Call (Name ''AttrsL2'') []
           [(''level2'', Call (Name ''AttrsL3'') [] [(''level3'', IntC 100)])])])"
  proof (cases "attrs_importable env")
    case True
    show ?thesis
      using eval_attrs_ctor [OF True]
        instances_ok_extend [OF ok, of "''AttrsL3''" "''AttrsL2''" "''AttrsL1''" "''Attrs''"] ok
      by (auto simp: lookup_attrs True simp del: eval.simps(7))
  next
    case False
    then show ?thesis by (simp add: lookup_attrs)
  qed
  have "\<forall>spec \<in> set instance_specs. ?P spec"
    unfolding instance_specs_def
    using dict attrs collab [of "''Lattix''" "''Lattix''"] collab [of "''EasyDict''" "''EasyDict''"]
      collab [of "''Addict''" "''Addict''"] collab [of "''Box''" "''Box''"]
      collab [of "''TreeDict''" "''TreeDict''"] collab [of "''DottedDict''" "''DottedDict''"]
    by (simp del: eval.simps)
  with sp have "?P (cond, key, ctor)" by blast
  with ec show ?thesis by simp
qed

lemma module_init_ok:
  assumes "module_init env [] = (Inr (g, insts), h)"
  shows "g = module_globals env \<and> instances_ok h insts"
proof -
  let ?h1 = "doc_cells ''dict'' ''dict'' ''dict'' 0"
  have ed: "eval env (import_libraries env) document [] = (Inr (VRef 2), ?h1)"
    using eval_document [of env "import_libraries env" "[]"] by simp
  have ok1: "instances_ok ?h1 []"
    unfolding instances_ok_def by (simp add: doc_cells_def)
  from assms have g: "g = module_globals env"
    and b: "build_instances env (module_globals env) instance_specs [] ?h1 = (Inr insts, h)"
    unfolding module_init_def ed module_globals_def
    by (auto split: prod.splits sum.splits)
  have "instances_ok h insts"
    by (rule build_instances_invariant [where I = "\<lambda>i h. instances_ok h i", OF _ ok1 b])
      (rule instance_specs_step)
  with g show ?thesis by simp
qed

lemma snapshot_doc:
  assumes "doc_at h b i" "length h' = length h"
    "h' ! b = h ! b" "h' ! (b - 1) = h ! (b - 1)" "h' ! (b - 2) = h ! (b - 2)"
  shows "snapshot d h' (VRef b) = snapshot d h (VRef b)"
proof -
  from assms(1) have b: "2 \<le> b" "b < length h" "b - 1 < length h" "b - 2 < length h"
    and s: "slots (h ! b) = [(''level1'', VRef (b - 1))]"
      "slots (h ! (b - 1)) = [(''level2'', VRef (b - 2))]"
      "slots (h ! (b - 2)) = [(''level3'', VInt i)]"
    unfolding doc_at_def by auto
  consider "d = 0" | "d = Suc 0" | "d = Suc (Suc 0)" | d3 where "d = Suc (Suc (Suc d3))"
    by (metis nat.exhaust)
  then show ?thesis
    using b s assms(2-5) by cases (simp_all add: lookup_obj_def)
qed

lemma reads_before_writes_append:
  "reads_before_writes (xs @ ys) =
     (reads_before_writes xs \<and> reads_before_writes ys \<and>
      (\<forall>w \<in> set xs. is_write w \<longrightarrow>
         (\<forall>r \<in> set ys. \<not> (is_read r \<and> timed_globals r = timed_globals w))))"
  by (induction xs) (auto simp: list_all_iff)

lemma reads_observe_append:
  "reads_observe i (xs @ ys) = (reads_observe i xs \<and> reads_observe i ys)"
  by (simp add: reads_observe_def)

lemma read_not_write: "is_read e \<Longrightarrow> \<not> is_write e"
  by (auto simp: is_read_def is_write_def read_key_stmt_def read_dot_stmt_def
      write_key_stmt_def write_dot_stmt_def)

lemma row_events_props:
  assumes "row_events a i evs"
  shows "reads_before_writes evs" and "reads_observe i evs"
    and "\<forall>e \<in> set evs. is_read e \<or> is_write e \<longrightarrow> timed_globals e = [(''obj'', VRef a)]"
proof -
  from assms obtain e0 rs ws where
    evs: "evs = e0 # rs @ ws" and e0: "\<not> is_read e0" "\<not> is_write e0" and
    rs: "\<forall>e \<in> set rs. is_read e \<and> timed_globals e = [(''obj'', VRef a)] \<and>
                       list_all (\<lambda>v. v = VInt i) (observed e)" and
    ws: "\<forall>e \<in> set ws. is_write e \<and> timed_globals e = [(''obj'', VRef a)]"
    unfolding row_events_def by blast
  have r1: "reads_before_writes rs" using rs
    by (induction rs) (auto dest: read_not_write)
  have r2: "reads_before_writes ws" using ws
    by (induction ws) (auto simp: list_all_iff dest: read_not_write)
  show "reads_before_writes evs"
    unfolding evs using e0 r1 r2 rs by (auto simp: reads_before_writes_append dest: read_not_write)
  show "reads_observe i evs"
    unfolding evs reads_observe_def using e0 rs ws
    by (auto simp: list_all_iff dest: read_not_write)
  show "\<forall>e \<in> set evs. is_read e \<or> is_write e \<longrightarrow> timed_globals e = [(''obj'', VRef a)]"
    unfolding evs using e0 rs ws by auto
qed

lemma leaf_changed_take3:
  assumes "leaf_changed h a h'" "5 \<le> a"
  shows "take 3 h' = take 3 h"
  using assms unfolding leaf_changed_def
  by (intro nth_equalityI) auto

lemma doc_at_frame:
  assumes "doc_at h b i" "leaf_changed h a h'" "a \<noteq> b" "a mod 3 = 2" "b mod 3 = 2"
  shows "doc_at h' b i" and "h' ! b = h ! b" and "h' ! (b - 1) = h ! (b - 1)"
    and "h' ! (b - 2) = h ! (b - 2)"
proof -
  from assms(1) have "2 \<le> b" unfolding doc_at_def by simp
  with assms(3,4,5) have ne: "b \<noteq> a - 2" "b - 1 \<noteq> a - 2" "b - 2 \<noteq> a - 2"
    by presburger+
  with assms(2) show e: "h' ! b = h ! b" "h' ! (b - 1) = h ! (b - 1)" "h' ! (b - 2) = h ! (b - 2)"
    unfolding leaf_changed_def by auto
  from assms(1,2) e show "doc_at h' b i"
    unfolding doc_at_def leaf_changed_def by simp
qed

lemma loop_inv_weaken:
  assumes "loop_inv insts pending w" "set pending' \<subseteq> set pending"
  shows "loop_inv insts pending' w"
  using assms unfolding loop_inv_def by (auto; blast)

lemma reads_observe_Nil [simp]: "reads_observe i []"
  by (simp add: reads_observe_def)

lemma loop_inv_initial:
  assumes "instances_ok h insts"
  shows "loop_inv insts pending \<lparr>heap = h, ticks = t, stdout = out, trace = []\<rparr>"
proof -
  from assms have t: "take 3 h = doc_cells ''dict'' ''dict'' ''dict'' 0"
    and old: "\<And>n v. map_of insts n = Some v \<Longrightarrow>
         \<exists>a. v = VRef a \<and> 5 \<le> a \<and> a mod 3 = 2 \<and> a < length h \<and> doc_at h a 100"
    and inj: "\<And>n n' v. map_of insts n = Some v \<Longrightarrow> map_of insts n' = Some v \<Longrightarrow> n = n'"
    unfolding instances_ok_def by blast+
  have "\<exists>a i. v = VRef a \<and> 5 \<le> a \<and> a mod 3 = 2 \<and> doc_at h a i \<and>
                (n \<in> set pending \<longrightarrow> i = 100 \<and> fresh a [])"
    if "map_of insts n = Some v" for n v
    using old [OF that] by (auto simp: fresh_def)
  with t inj show ?thesis unfolding loop_inv_def by simp
qed

lemma loop_inv_step:
  assumes inv: "loop_inv insts (name # pending) w"
      and nin: "name \<notin> set pending"
      and row: "bench_row env g insts (name, Expr (Call f as ks), sk, sd) w = (r, w')"
  shows "loop_inv insts pending w'"
proof (cases "map_of insts name")
  case None
  from bench_row_effect_none [OF row None] have
    h: "heap w' = heap w" and
    t: "trace w' = trace w \<or> (\<exists>obs. trace w' = trace w @ [Timed (Expr (Call f as ks)) g obs])"
    by blast+
  from t have fr: "fresh a (trace w) \<Longrightarrow> fresh a (trace w')" for a
    by (auto simp: fresh_def)
  from inv have rb0: "reads_before_writes (trace w)" and ro0: "reads_observe 100 (trace w)"
    unfolding loop_inv_def by blast+
  have ro1: "reads_observe 100 [Timed (Expr (Call f as ks)) g obs]" for obs
    by (simp add: reads_observe_def)
  from t rb0 have rb: "reads_before_writes (trace w')"
    by (auto simp: reads_before_writes_append)
  from t ro0 ro1 have ro: "reads_observe 100 (trace w')"
    by (auto simp: reads_observe_append)
  from inv have t3: "take 3 (heap w) = doc_cells ''dict'' ''dict'' ''dict'' 0"
    and all: "\<And>n v. map_of insts n = Some v \<Longrightarrow>
         \<exists>a i. v = VRef a \<and> 5 \<le> a \<and> a mod 3 = 2 \<and> doc_at (heap w) a i \<and>
                (n \<in> set (name # pending) \<longrightarrow> i = 100 \<and> fresh a (trace w))"
    and inj: "\<And>n n' v. map_of insts n = Some v \<Longrightarrow> map_of insts n' = Some v \<Longrightarrow> n = n'"
    unfolding loop_inv_def by blast+
  have 2: "\<exists>a i. v = VRef a \<and> 5 \<le> a \<and> a mod 3 = 2 \<and> doc_at (heap w') a i \<and>
                (n \<in> set pending \<longrightarrow> i = 100 \<and> fresh a (trace w'))"
    if "map_of insts n = Some v" for n v
    using all [OF that] fr unfolding h by auto
  show ?thesis
    unfolding loop_inv_def using t3 2 inj rb ro unfolding h by blast
next
  case (Some v)
  from inv have t3: "take 3 (heap w) = doc_cells ''dict'' ''dict'' ''dict'' 0"
    and all: "\<And>n v. map_of insts n = Some v \<Longrightarrow>
         \<exists>a i. v = VRef a \<and> 5 \<le> a \<and> a mod 3 = 2 \<and> doc_at (heap w) a i \<and>
                (n \<in> set (name # pending) \<longrightarrow> i = 100 \<and> fresh a (trace w))"
    and inj: "\<And>n n' v. map_of insts n = Some v \<Longrightarrow> map_of insts n' = Some v \<Longrightarrow> n = n'"
    and rb: "reads_before_writes (trace w)" and ro: "reads_observe 100 (trace w)"
    unfolding loop_inv_def by blast+
  from all [OF Some] obtain a where v: "v = VRef a" and a5: "5 \<le> a" and am: "a mod 3 = 2"
    and d: "doc_at (heap w) a 100" and fa: "fresh a (trace w)" by auto
  from bench_row_effect [OF row Some [unfolded v] d] obtain evs where
    lc: "leaf_changed (heap w) a (heap w')" and tr: "trace w' = trace w @ evs"
    and re: "row_events a 100 evs" by blast
  note ep = row_events_props [OF re]
  have 1: "take 3 (heap w') = doc_cells ''dict'' ''dict'' ''dict'' 0"
    using leaf_changed_take3 [OF lc a5] t3 by simp
  have 2: "\<exists>b i. v' = VRef b \<and> 5 \<le> b \<and> b mod 3 = 2 \<and> doc_at (heap w') b i \<and>
                (n \<in> set pending \<longrightarrow> i = 100 \<and> fresh b (trace w'))"
    if m: "map_of insts n = Some v'" for n v'
  proof (cases "n = name")
    case True
    with m Some have "v' = VRef a" using v by simp
    moreover from leaf_changed_doc [OF d lc] obtain i' where "doc_at (heap w') a i'" by blast
    ultimately show ?thesis using a5 am nin True by auto
  next
    case False
    from all [OF m] obtain b i where v': "v' = VRef b" and b5: "5 \<le> b" and bm: "b mod 3 = 2"
      and db: "doc_at (heap w) b i"
      and pb: "n \<in> set (name # pending) \<longrightarrow> i = 100 \<and> fresh b (trace w)" by blast
    have ab: "a \<noteq> b"
    proof
      assume "a = b"
      with m Some v v' have "n = name" using inj by blast
      with False show False by simp
    qed
    have db': "doc_at (heap w') b i" using doc_at_frame(1) [OF db lc ab am bm] .
    have "fresh b (trace w')" if "fresh b (trace w)"
      using that ep(3) ab unfolding tr fresh_def by auto
    with pb False have "n \<in> set pending \<longrightarrow> i = 100 \<and> fresh b (trace w')" by auto
    with v' b5 bm db' show ?thesis by blast
  qed
  have 3: "reads_before_writes (trace w')"
    unfolding tr reads_before_writes_append
    using rb ep(1) ep(3) fa unfolding fresh_def by auto
  have 4: "reads_observe 100 (trace w')"
    unfolding tr reads_observe_append using ro ep(2) by simp
  show ?thesis
    unfolding loop_inv_def using 1 2 3 4 inj by blast
qed

lemma bench_all_inv:
  assumes "loop_inv insts (map fst rows) w" "distinct (map fst rows)" "list_all is_call_row rows"
  shows "loop_inv insts [] (snd (bench_all env g insts rows w))"
  using assms
proof (induction rows arbitrary: w)
  case Nil
  then show ?case by simp
next
  case (Cons row rows)
  obtain name init sk sd where rw: "row = (name, init, sk, sd)" by (cases row)
  from Cons.prems(3) rw obtain f as ks where init: "init = Expr (Call f as ks)"
    by (auto simp: is_call_row_def split: stmt.splits expr.splits)
  obtain r w1 where b: "bench_row env g insts (name, Expr (Call f as ks), sk, sd) w = (r, w1)"
    by (cases "bench_row env g insts (name, Expr (Call f as ks), sk, sd) w")
  from Cons.prems(1,2) rw have "loop_inv insts (name # map fst rows) w" "name \<notin> set (map fst rows)"
    by simp_all
  from loop_inv_step [OF this b] have i1: "loop_inv insts (map fst rows) w1" .
  show ?case
  proof (cases r)
    case (Inl x)
    with b rw init show ?thesis
      using loop_inv_weaken [OF i1, of "[]"] by simp
  next
    case (Inr y)
    with b rw init have "bench_all env g insts (row # rows) w = bench_all env g insts rows w1"
      by simp
    with Cons.IH [OF i1] Cons.prems(2,3) show ?thesis by simp
  qed
qed

lemma bench_all_prefix_inv:
  assumes "bench_all env g insts xs w = (Inr (), w')"
      and "loop_inv insts (map fst (xs @ ys)) w" "distinct (map fst (xs @ ys))"
      and "list_all is_call_row xs"
  shows "loop_inv insts (map fst ys) w'"
  using assms
proof (induction xs arbitrary: w)
  case Nil
  then show ?case by simp
next
  case (Cons row rows)
  obtain name init sk sd where rw: "row = (name, init, sk, sd)" by (cases row)
  from Cons.prems(4) rw obtain f as ks where init: "init = Expr (Call f as ks)"
    by (auto simp: is_call_row_def split: stmt.splits expr.splits)
  obtain r w1 where b: "bench_row env g insts (name, Expr (Call f as ks), sk, sd) w = (r, w1)"
    by (cases "bench_row env g insts (name, Expr (Call f as ks), sk, sd) w")
  from Cons.prems(2,3) rw have "loop_inv insts (name # map fst (rows @ ys)) w"
    "name \<notin> set (map fst (rows @ ys))"
    by simp_all
  from loop_inv_step [OF this b] have i1: "loop_inv insts (map fst (rows @ ys)) w1" .
  from Cons.prems(1) b rw init obtain y where "r = Inr y"
    and "bench_all env g insts rows w1 = (Inr (), w')"
    by (cases r) auto
  from Cons.IH [OF this(2) i1] Cons.prems(3,4) show ?case by simp
qed

lemma libs_rows: "distinct (map fst libs)" "list_all is_call_row libs"
  by (simp_all add: libs_def is_call_row_def)

lemma bench_row_frame:
  assumes inv: "loop_inv insts (name # pending) w"
      and row: "bench_row env g insts (name, Expr (Call f as ks), sk, sd) w = (r, w')"
  shows "snapshot d (heap w') (VRef 2) = snapshot d (heap w) (VRef 2)"
    and "map_of insts n = Some v \<Longrightarrow> n \<noteq> name \<Longrightarrow> snapshot d (heap w') v = snapshot d (heap w) v"
proof -
  from inv have t3: "take 3 (heap w) = doc_cells ''dict'' ''dict'' ''dict'' 0"
    and all: "\<And>n v. map_of insts n = Some v \<Longrightarrow>
         \<exists>a i. v = VRef a \<and> 5 \<le> a \<and> a mod 3 = 2 \<and> doc_at (heap w) a i \<and>
                (n \<in> set (name # pending) \<longrightarrow> i = 100 \<and> fresh a (trace w))"
    and inj: "\<And>n n' v. map_of insts n = Some v \<Longrightarrow> map_of insts n' = Some v \<Longrightarrow> n = n'"
    unfolding loop_inv_def by blast+
  have "length (take 3 (heap w)) = 3" unfolding t3 by (simp add: doc_cells_def)
  then have l3: "3 \<le> length (heap w)" by simp
  have n3: "heap w ! 0 = take 3 (heap w) ! 0" "heap w ! 1 = take 3 (heap w) ! 1"
    "heap w ! 2 = take 3 (heap w) ! 2" by simp_all
  have d2: "doc_at (heap w) 2 100"
    unfolding doc_at_def using l3 n3 unfolding t3 by (simp add: doc_cells_def)
  have frame: "snapshot d (heap w') (VRef 2) = snapshot d (heap w) (VRef 2) \<and>
      (\<forall>n v. map_of insts n = Some v \<longrightarrow> n \<noteq> name \<longrightarrow>
         snapshot d (heap w') v = snapshot d (heap w) v)"
  proof (cases "map_of insts name")
    case None
    from bench_row_effect_none [OF row None] have "heap w' = heap w" by blast
    then show ?thesis by simp
  next
    case (Some u)
    from all [OF Some] obtain a where u: "u = VRef a" and a5: "5 \<le> a" and am: "a mod 3 = 2"
      and d: "doc_at (heap w) a 100" by auto
    from bench_row_effect [OF row Some [unfolded u] d] have
      lc: "leaf_changed (heap w) a (heap w')" by blast
    then have len: "length (heap w') = length (heap w)" unfolding leaf_changed_def by simp
    have a2: "a \<noteq> 2" using a5 by simp
    note f2 = doc_at_frame [OF d2 lc a2 am]
    have raw: "snapshot d (heap w') (VRef 2) = snapshot d (heap w) (VRef 2)"
      using snapshot_doc [OF d2 len] f2(2,3,4) by simp
    have other: "snapshot d (heap w') v = snapshot d (heap w) v"
      if m: "map_of insts n = Some v" and ne: "n \<noteq> name" for n v
    proof -
      from all [OF m] obtain b i where v: "v = VRef b" and bm: "b mod 3 = 2"
        and db: "doc_at (heap w) b i" by blast
      have ab: "a \<noteq> b"
      proof
        assume "a = b"
        with m Some u v have "n = name" using inj by blast
        with ne show False by simp
      qed
      note fb = doc_at_frame [OF db lc ab am bm]
      show ?thesis unfolding v using snapshot_doc [OF db len fb(2,3,4)] .
    qed
    from raw other show ?thesis by blast
  qed
  from frame show "snapshot d (heap w') (VRef 2) = snapshot d (heap w) (VRef 2)" by blast
  from frame show "map_of insts n = Some v \<Longrightarrow> n \<noteq> name \<Longrightarrow>
    snapshot d (heap w') v = snapshot d (heap w) v" by blast
qed

text \<open>
  Claim C5. In every run of the script, whatever is installed and whatever the libraries
  do within their interface: no timed write on an instance is followed by a timed read on
  the same instance, and every execution of every timed read (key-style or dot-style)
  evaluates to the value 100 that the instance was built with.
\<close>

theorem reads_precede_writes_and_observe_100:
  "reads_before_writes (trace (snd (main env))) \<and> reads_observe 100 (trace (snd (main env)))"
proof (cases "module_init env []")
  case (Pair r h)
  show ?thesis
  proof (cases r)
    case (Inl x)
    with Pair show ?thesis by (simp add: main_def)
  next
    case (Inr gi)
    obtain g insts where gi: "gi = (g, insts)" by (cases gi)
    from module_init_ok [OF Pair [unfolded Inr gi]] have ok: "instances_ok h insts" by simp
    have "loop_inv insts []
        (snd (bench_all env g insts libs \<lparr>heap = h, ticks = 0, stdout = headers env, trace = []\<rparr>))"
      using loop_inv_initial [OF ok] libs_rows by (rule bench_all_inv)
    then show ?thesis
      unfolding main_def Pair Inr gi loop_inv_def by simp
  qed
qed

lemma reads_observed_lattix:
  "map observed (filter is_read (trace (snd (main env_lattix)))) =
     [[VInt 100], [VInt 100], [VInt 100], [VInt 100]]"
  by (simp add: model_defs env_defs repeat_unfold is_read_def)

text \<open>
  Claim C8. At any point of the main loop, processing the next row of the registry leaves
  the document \<^verbatim>\<open>raw_data\<close> and the instance of every other implementation as they
  were, to any depth: the timed writes of a row reach only the row's own instance.
\<close>

theorem other_instances_unchanged:
  assumes init: "module_init env [] = (Inr (g, instances), h0)"
      and pre: "bench_all env g instances (take k libs)
                  \<lparr>heap = h0, ticks = 0, stdout = headers env, trace = []\<rparr> = (Inr (), w)"
      and k: "k < length libs"
  shows "lookup_name g ''raw_data'' = Some (VRef 2) \<and>
         snapshot d (heap (snd (bench_row env g instances (libs ! k) w))) (VRef 2) =
           snapshot d (heap w) (VRef 2) \<and>
         (\<forall>name v. map_of instances name = Some v \<and> name \<noteq> fst (libs ! k) \<longrightarrow>
            snapshot d (heap (snd (bench_row env g instances (libs ! k) w))) v =
              snapshot d (heap w) v)"
proof -
  from module_init_ok [OF init] have g: "g = module_globals env" and ok: "instances_ok h0 instances"
    by simp_all
  have split: "libs = take k libs @ drop k libs" by simp
  have i0: "loop_inv instances (map fst (take k libs @ drop k libs))
      \<lparr>heap = h0, ticks = 0, stdout = headers env, trace = []\<rparr>"
    by (rule loop_inv_initial [OF ok])
  have di: "distinct (map fst (take k libs @ drop k libs))" using libs_rows(1) by simp
  have ca: "list_all is_call_row (take k libs)"
    using libs_rows(2) by (auto simp: list_all_iff dest: in_set_takeD)
  from bench_all_prefix_inv [OF pre i0 di ca]
  have inv: "loop_inv instances (map fst (drop k libs)) w" .
  obtain name init_stmt sk sd where row: "libs ! k = (name, init_stmt, sk, sd)"
    by (cases "libs ! k")
  from k have dr: "drop k libs = libs ! k # drop (Suc k) libs"
    by (simp add: Cons_nth_drop_Suc)
  from libs_rows(2) k have "is_call_row (libs ! k)" by (simp add: list_all_length)
  with row obtain f as ks where ie: "init_stmt = Expr (Call f as ks)"
    by (auto simp: is_call_row_def split: stmt.splits expr.splits)
  from inv have inv': "loop_inv instances (name # map fst (drop (Suc k) libs)) w"
    unfolding dr row by simp
  obtain r w' where b: "bench_row env g instances (name, Expr (Call f as ks), sk, sd) w = (r, w')"
    by (cases "bench_row env g instances (name, Expr (Call f as ks), sk, sd) w")
  note fr = bench_row_frame [OF inv' b]
  show ?thesis
    unfolding row ie b snd_conv fst_conv
    using fr by (auto simp: g lookup_raw_data)
qed

lemma after_dict_row_lattix:
  "fst (bench_all env_lattix globals_lattix instances_lattix (take 1 libs) world_lattix) = Inr ()"
  "heap (snd (bench_all env_lattix globals_lattix instances_lattix (take 1 libs) world_lattix)) =
     heap_lattix[3 := PyObj ''dict'' [(''level3'', VInt 200)]]"
  by (simp_all add: model_defs env_defs lattix_defs repeat_unfold)

lemma after_lattix_row_lattix:
  "heap (snd (bench_row env_lattix globals_lattix instances_lattix (libs ! 1)
      (snd (bench_all env_lattix globals_lattix instances_lattix (take 1 libs) world_lattix)))) =
     heap_lattix[3 := PyObj ''dict'' [(''level3'', VInt 200)],
                 6 := PyObj ''Lattix'' [(''level3'', VInt 300)]]"
  by (simp add: model_defs env_defs lattix_defs repeat_unfold)

theorem other_instances_unchanged_witness:
  "snapshot 4 (heap (snd (bench_row env_lattix globals_lattix instances_lattix (libs ! 1)
      (snd (bench_all env_lattix globals_lattix instances_lattix (take 1 libs) world_lattix)))))
      (VRef 2) =
     Object ''dict'' [(''level1'', Object ''dict'' [(''level2'',
       Object ''dict'' [(''level3'', Atom (VInt 100))])])] \<and>
   snapshot 4 (heap (snd (bench_row env_lattix globals_lattix instances_lattix (libs ! 1)
      (snd (bench_all env_lattix globals_lattix instances_lattix (take 1 libs) world_lattix)))))
      (VRef 5) =
     Object ''dict'' [(''level1'', Object ''dict'' [(''level2'',
       Object ''dict'' [(''level3'', Atom (VInt 200))])])] \<and>
   snapshot 4 (heap (snd (bench_row env_lattix globals_lattix instances_lattix (libs ! 1)
      (snd (bench_all env_lattix globals_lattix instances_lattix (take 1 libs) world_lattix)))))
      (VRef 11) =
     Object ''AttrsL1'' [(''level1'', Object ''AttrsL2'' [(''level2'',
       Object ''AttrsL3'' [(''level3'', Atom (VInt 100))])])] \<and>
   snapshot 4 (heap (snd (bench_row env_lattix globals_lattix instances_lattix (libs ! 1)
      (snd (bench_all env_lattix globals_lattix instances_lattix (take 1 libs) world_lattix)))))
      (VRef 8) =
     Object ''Lattix'' [(''level1'', Object ''Lattix'' [(''level2'',
       Object ''Lattix'' [(''level3'', Atom (VInt 300))])])]"
proof -
  let ?w = "snd (bench_all env_lattix globals_lattix instances_lattix (take 1 libs) world_lattix)"
  let ?w' = "snd (bench_row env_lattix globals_lattix instances_lattix (libs ! 1) ?w)"
  have pre: "bench_all env_lattix globals_lattix instances_lattix (take 1 libs)
      \<lparr>heap = heap_lattix, ticks = 0, stdout = headers env_lattix, trace = []\<rparr> = (Inr (), ?w)"
    using after_dict_row_lattix(1) unfolding world_lattix_def
    by (cases "bench_all env_lattix globals_lattix instances_lattix (take 1 libs)
      \<lparr>heap = heap_lattix, ticks = 0, stdout = headers env_lattix, trace = []\<rparr>") simp
  have k: "1 < length libs" by (simp add: libs_def)
  have m: "map_of instances_lattix ''dict'' = Some (VRef 5) \<and> ''dict'' \<noteq> fst (libs ! 1)"
    "map_of instances_lattix ''Attrs'' = Some (VRef 11) \<and> ''Attrs'' \<noteq> fst (libs ! 1)"
    by (simp_all add: instances_lattix_def libs_def)
  have before: "snapshot 4 (heap ?w) (VRef 2) =
      Object ''dict'' [(''level1'', Object ''dict'' [(''level2'',
       Object ''dict'' [(''level3'', Atom (VInt 100))])])]"
    "snapshot 4 (heap ?w) (VRef 5) =
      Object ''dict'' [(''level1'', Object ''dict'' [(''level2'',
       Object ''dict'' [(''level3'', Atom (VInt 200))])])]"
    "snapshot 4 (heap ?w) (VRef 11) =
      Object ''AttrsL1'' [(''level1'', Object ''AttrsL2'' [(''level2'',
       Object ''AttrsL3'' [(''level3'', Atom (VInt 100))])])]"
    unfolding after_dict_row_lattix(2)
    by (simp_all add: heap_lattix_def lookup_obj_def numeral_eq_Suc)
  have own: "snapshot 4 (heap ?w') (VRef 8) =
      Object ''Lattix'' [(''level1'', Object ''Lattix'' [(''level2'',
       Object ''Lattix'' [(''level3'', Atom (VInt 300))])])]"
    unfolding after_lattix_row_lattix
    by (simp add: heap_lattix_def lookup_obj_def numeral_eq_Suc)
  from other_instances_unchanged [OF module_init_lattix pre k, of 4] m
  have "snapshot 4 (heap ?w') (VRef 2) = snapshot 4 (heap ?w) (VRef 2)"
    "snapshot 4 (heap ?w') (VRef 5) = snapshot 4 (heap ?w) (VRef 5)"
    "snapshot 4 (heap ?w') (VRef 11) = snapshot 4 (heap ?w) (VRef 11)"
    by blast+
  with before own show ?thesis by simp
qed

subsection \<open>The timed constructions in a run of the script\<close>

text \<open>
  The module-level statements build an instance only with a constructor that returned, so
  a library that has an instance has a constructor that does not raise; \<^verbatim>\<open>dict\<close> and the
  \<^verbatim>\<open>attrs\<close> classes raise nothing outside \<^verbatim>\<open>Exception\<close>. Hence the init statement of a
  row that the loop processes never ends the script: \<^verbatim>\<open>run\<close> returns for it, every row
  returns, and so does the loop.
\<close>

lemma collab_ctor_returns:
  assumes c: "c \<in> {''Lattix'', ''EasyDict'', ''Addict'', ''Box'', ''TreeDict'', ''DottedDict''}"
      and ev: "eval env (module_globals env) (Call (Name c) [Name ''raw_data''] []) h = (Inr v, h')"
  shows "ctor_raises (collabs env c) = None"
proof -
  have nd: "c \<noteq> ''dict''" "c \<noteq> ''AttrsL3''" "c \<noteq> ''AttrsL2''" "c \<noteq> ''AttrsL1''"
    using c by auto
  from ev show ?thesis
    by (simp add: lookup_collab [OF c] lookup_raw_data py_call_def nd new_collab_def
        split: option.splits if_splits)
qed

lemma ctors_ok_update:
  assumes "ctors_ok env insts"
      and "key \<in> {''Lattix'', ''EasyDict'', ''Addict'', ''Box'', ''TreeDict'', ''DottedDict''}
           \<Longrightarrow> ctor_raises (collabs env key) = None"
  shows "ctors_ok env (AList.update key v insts)"
  using assms unfolding ctors_ok_def by (auto simp: update_conv')

lemma instance_specs_ctors:
  assumes sp: "(cond, key, ctor) \<in> set instance_specs"
      and ok: "ctors_ok env insts"
      and ec: "eval env (module_globals env) cond h = (Inr c, h1)"
  shows "ctors_ok env insts \<and>
      (\<forall>v h2. truthy h1 c \<longrightarrow> eval env (module_globals env) ctor h1 = (Inr v, h2) \<longrightarrow>
         ctors_ok env (AList.update key v insts))"
proof -
  let ?g = "module_globals env"
  let ?P = "\<lambda>spec. case spec of (cond, key, ctor) \<Rightarrow>
      \<forall>v h1 h2. eval env ?g ctor h1 = (Inr v, h2) \<longrightarrow> ctors_ok env (AList.update key v insts)"
  have collab: "?P (Name c', c', Call (Name c') [Name ''raw_data''] [])"
    if c': "c' \<in> {''Lattix'', ''EasyDict'', ''Addict'', ''Box'', ''TreeDict'', ''DottedDict''}"
    for c'
    using collab_ctor_returns [OF c'] ctors_ok_update [OF ok, of c']
    by (auto simp del: eval.simps)
  have other: "?P (cond', key', ctor')"
    if "key' \<notin> {''Lattix'', ''EasyDict'', ''Addict'', ''Box'', ''TreeDict'', ''DottedDict''}"
    for cond' key' ctor'
    using ctors_ok_update [OF ok, of key'] that by (auto simp del: eval.simps)
  have "\<forall>spec \<in> set instance_specs. ?P spec"
    unfolding instance_specs_def
    using other [of "''dict''"] other [of "''Attrs''"]
      collab [of "''Lattix''"] collab [of "''EasyDict''"]
      collab [of "''Addict''"] collab [of "''Box''"]
      collab [of "''TreeDict''"] collab [of "''DottedDict''"]
    by (simp del: eval.simps)
  with sp have "?P (cond, key, ctor)" by blast
  with ok show ?thesis by auto
qed

lemma module_init_ctors:
  assumes "module_init env [] = (Inr (g, insts), h)"
  shows "ctors_ok env insts"
proof -
  let ?h1 = "doc_cells ''dict'' ''dict'' ''dict'' 0"
  have ed: "eval env (import_libraries env) document [] = (Inr (VRef 2), ?h1)"
    using eval_document [of env "import_libraries env" "[]"] by simp
  have ok1: "ctors_ok env []"
    unfolding ctors_ok_def by simp
  from assms have
    b: "build_instances env (module_globals env) instance_specs [] ?h1 = (Inr insts, h)"
    unfolding module_init_def ed module_globals_def
    by (auto split: prod.splits sum.splits)
  show ?thesis
    by (rule build_instances_invariant [where I = "\<lambda>i h. ctors_ok env i", OF _ ok1 b])
      (rule instance_specs_ctors)
qed

lemma collab_call_exc:
  assumes c: "c \<in> {''Lattix'', ''EasyDict'', ''Addict'', ''Box'', ''TreeDict'', ''DottedDict''}"
      and nr: "ctor_raises (collabs env c) = None"
      and kw: "kws = [] \<or> kws = [(''lazy_create'', BoolC True)]"
      and ev: "eval env (module_globals env) (Call (Name c) [Name ''raw_data''] kws) h = (Inl x, h')"
  shows "isinstance_Exception x"
proof -
  have nd: "c \<noteq> ''dict''" "c \<noteq> ''AttrsL3''" "c \<noteq> ''AttrsL2''" "c \<noteq> ''AttrsL1''"
    using c by auto
  from kw ev show ?thesis
    by (auto simp: lookup_collab [OF c] lookup_raw_data py_call_def nd new_collab_def nr
        alloc_document_def split: option.splits if_splits)
qed

lemma dict_call_exc:
  assumes "eval env (module_globals env) (Call (Name ''dict'') [Name ''raw_data''] []) h = (Inl x, h')"
  shows "isinstance_Exception x"
proof -
  have l: "lookup_name (module_globals env) ''dict'' = Some (VClass ''dict'')"
    by (auto simp: module_globals_def lookup_name_def update_conv' import_libraries_def
      try_import_def builtins_def)
  from assms show ?thesis
    by (auto simp: l lookup_raw_data py_call_def new_dict_def alloc_def
        split: option.splits if_splits)
qed

lemma attrs_call_exc:
  assumes "eval env (module_globals env)
             (Call (Name ''AttrsL1'') []
                [(''level1'', Call (Name ''AttrsL2'') []
                   [(''level2'', Call (Name ''AttrsL3'') [] [(''level3'', IntC 100)])])]) h
           = (Inl x, h')"
  shows "isinstance_Exception x"
  using assms
  by (cases "attrs_importable env")
    (auto simp: lookup_attrs py_call_def new_AttrsL1_def new_AttrsL2_def new_AttrsL3_def
      bind_field_def alloc_def)

lemma libs_init_exc:
  assumes row: "(name, init_stmt, sk, sd) \<in> set libs"
      and act: "\<not> (map_of insts name = None \<and> name \<noteq> ''dict'' \<and> name \<noteq> ''Attrs'')"
      and ok: "ctors_ok env insts"
      and ex: "exec env (module_globals env) init_stmt h = (Inl x, h')"
  shows "isinstance_Exception x"
proof -
  let ?g = "module_globals env"
  define P where "P = (\<lambda>row :: string \<times> stmt \<times> bool \<times> bool.
      (map_of insts (fst row) = None \<and> fst row \<noteq> ''dict'' \<and> fst row \<noteq> ''Attrs'') \<or>
      (\<forall>h x h'. exec env ?g (fst (snd row)) h = (Inl x, h') \<longrightarrow> isinstance_Exception x))"
  have expr: "isinstance_Exception x"
    if "\<And>h x h'. eval env ?g e h = (Inl x, h') \<Longrightarrow> isinstance_Exception x"
      and "exec env ?g (Expr e) h = (Inl x, h')" for e h x h'
  proof -
    obtain r h1 where e: "eval env ?g e h = (r, h1)" by (cases "eval env ?g e h")
    with that(2) have "r = Inl x" by (simp del: eval.simps)
    with e that(1) show ?thesis by blast
  qed
  have collab: "P (c, Expr (Call (Name c) [Name ''raw_data''] kws), sk', sd')"
    if c: "c \<in> {''Lattix'', ''EasyDict'', ''Addict'', ''Box'', ''TreeDict'', ''DottedDict''}"
      and kw: "kws = [] \<or> kws = [(''lazy_create'', BoolC True)]"
    for c kws sk' sd'
  proof (cases "map_of insts c = None")
    case True
    moreover have "c \<noteq> ''dict''" "c \<noteq> ''Attrs''" using c by auto
    ultimately show ?thesis unfolding P_def by simp
  next
    case False
    have nr: "ctor_raises (collabs env c) = None"
      by (rule mp [OF bspec [OF ok [unfolded ctors_ok_def] c] False])
    have "isinstance_Exception x"
      if "exec env ?g (Expr (Call (Name c) [Name ''raw_data''] kws)) h = (Inl x, h')" for h x h'
      using collab_call_exc [OF c nr kw] that by (rule expr)
    then show ?thesis unfolding P_def fst_conv snd_conv by blast
  qed
  have dict: "P (''dict'', Expr (Call (Name ''dict'') [Name ''raw_data''] []), sk', sd')" for sk' sd'
  proof -
    have "isinstance_Exception x"
      if "exec env ?g (Expr (Call (Name ''dict'') [Name ''raw_data''] [])) h = (Inl x, h')"
      for h x h'
      using dict_call_exc that by (rule expr)
    then show ?thesis unfolding P_def fst_conv snd_conv by blast
  qed
  have attrs: "P (''Attrs'',
      Expr (Call (Name ''AttrsL1'') []
        [(''level1'', Call (Name ''AttrsL2'') []
           [(''level2'', Call (Name ''AttrsL3'') [] [(''level3'', IntC 100)])])]), sk', sd')" for sk' sd'
  proof -
    have "isinstance_Exception x"
      if "exec env ?g (Expr (Call (Name ''AttrsL1'') []
        [(''level1'', Call (Name ''AttrsL2'') []
           [(''level2'', Call (Name ''AttrsL3'') [] [(''level3'', IntC 100)])])])) h = (Inl x, h')"
      for h x h'
      using attrs_call_exc that by (rule expr)
    then show ?thesis unfolding P_def fst_conv snd_conv by blast
  qed
  have c1: "''Lattix'' \<in> {''Lattix'', ''EasyDict'', ''Addict'', ''Box'', ''TreeDict'', ''DottedDict''}"
    and c2: "''EasyDict'' \<in> {''Lattix'', ''EasyDict'', ''Addict'', ''Box'', ''TreeDict'', ''DottedDict''}"
    and c3: "''Addict'' \<in> {''Lattix'', ''EasyDict'', ''Addict'', ''Box'', ''TreeDict'', ''DottedDict''}"
    and c4: "''Box'' \<in> {''Lattix'', ''EasyDict'', ''Addict'', ''Box'', ''TreeDict'', ''DottedDict''}"
    and c5: "''TreeDict'' \<in> {''Lattix'', ''EasyDict'', ''Addict'', ''Box'', ''TreeDict'', ''DottedDict''}"
    and c6: "''DottedDict'' \<in> {''Lattix'', ''EasyDict'', ''Addict'', ''Box'', ''TreeDict'', ''DottedDict''}"
    by simp_all
  have "list_all P libs"
    unfolding libs_def list.pred_inject
    by (intro conjI list.pred_inject(1) TrueI dict attrs collab [OF c1 disjI2 [OF refl]] collab [OF c2 disjI1 [OF refl]]
        collab [OF c3 disjI1 [OF refl]] collab [OF c4 disjI1 [OF refl]]
        collab [OF c5 disjI1 [OF refl]] collab [OF c6 disjI1 [OF refl]])
  with row have "P (name, init_stmt, sk, sd)" by (simp only: list_all_iff)
  with act ex show ?thesis unfolding P_def fst_conv snd_conv by blast
qed

lemma libs_init_returns:
  assumes row: "(name, init_stmt, sk, sd) \<in> set libs"
      and act: "\<not> (map_of insts name = None \<and> name \<noteq> ''dict'' \<and> name \<noteq> ''Attrs'')"
      and ok: "ctors_ok env insts"
  shows "\<exists>t. fst (run env init_stmt Pass (module_globals env) w) = Inr t"
proof (cases "fst (run env init_stmt Pass (module_globals env) w)")
  case (Inl x)
  then obtain w1 where "run env init_stmt Pass (module_globals env) w = (Inl x, w1)"
    by (cases "run env init_stmt Pass (module_globals env) w") simp
  from run_Inl [OF this] libs_init_exc [OF row act ok] show ?thesis by auto
next
  case (Inr t)
  then show ?thesis by blast
qed






text \<open>
  Claim C4, as amended. In a run of the script that gets past the module level, for every
  implementation of the registry that supports both styles and has an instance, the
  statements timed in its row are, in this order: the init statement (in the module
  globals), the key read, the dot read, the key write, the dot write (the four with
  \<^verbatim>\<open>obj\<close> bound to the instance).
\<close>

theorem both_styles_reads_then_writes:
  assumes "module_init env [] = (Inr (g, instances), h0)"
      and "(name, init_stmt, True, True) \<in> set libs"
      and "map_of instances name = Some obj"
  shows "take (length (trace w))
           (trace (snd (bench_row env g instances (name, init_stmt, True, True) w))) = trace w \<and>
         map timed_stmt (drop (length (trace w))
           (trace (snd (bench_row env g instances (name, init_stmt, True, True) w)))) =
           [init_stmt, read_key_stmt, read_dot_stmt, write_key_stmt, write_dot_stmt] \<and>
         map timed_globals (drop (length (trace w))
           (trace (snd (bench_row env g instances (name, init_stmt, True, True) w)))) =
           [g, [(''obj'', obj)], [(''obj'', obj)], [(''obj'', obj)], [(''obj'', obj)]]"
proof -
  from module_init_ok [OF assms(1)] have g: "g = module_globals env"
    and io: "instances_ok h0 instances" by simp_all
  from module_init_ctors [OF assms(1)] have ok: "ctors_ok env instances" .
  from io assms(3) obtain a where "obj = VRef a" unfolding instances_ok_def by blast
  then have nn: "obj \<noteq> VNone" by simp
  from assms(3) have act: "\<not> (map_of instances name = None \<and> name \<noteq> ''dict'' \<and> name \<noteq> ''Attrs'')"
    by simp
  then have ns:
    "(map_of instances name = None \<and> name \<noteq> ''dict'' \<and> name \<noteq> ''Attrs'') = False" by simp
  from libs_init_returns [OF assms(2) act ok] obtain t0 where
    "fst (run env init_stmt Pass g w) = Inr t0" unfolding g by blast
  from bench_row_completes [OF ns this] obtain results where
    r: "fst (bench_row env g instances (name, init_stmt, True, True) w) = Inr (Some results)"
    by blast
  from bench_row_results [OF r] show ?thesis using assms(3) nn by auto
qed

theorem both_styles_reads_then_writes_witness:
  "module_init env_lattix [] = (Inr (globals_lattix, instances_lattix), heap_lattix) \<and>
   (''Lattix'',
    Expr (Call (Name ''Lattix'') [Name ''raw_data''] [(''lazy_create'', BoolC True)]),
    True, True) \<in> set libs \<and>
   map_of instances_lattix ''Lattix'' = Some (VRef 8) \<and>
   map timed_stmt (drop (length (trace world_lattix))
     (trace (snd (bench_row env_lattix globals_lattix instances_lattix
        (''Lattix'',
         Expr (Call (Name ''Lattix'') [Name ''raw_data''] [(''lazy_create'', BoolC True)]),
         True, True) world_lattix)))) =
     [Expr (Call (Name ''Lattix'') [Name ''raw_data''] [(''lazy_create'', BoolC True)]),
      read_key_stmt, read_dot_stmt, write_key_stmt, write_dot_stmt]"
proof -
  have r: "(''Lattix'',
      Expr (Call (Name ''Lattix'') [Name ''raw_data''] [(''lazy_create'', BoolC True)]),
      True, True) \<in> set libs"
    by (simp add: libs_def)
  have m: "map_of instances_lattix ''Lattix'' = Some (VRef 8)"
    by (simp add: instances_lattix_def)
  show ?thesis
    using module_init_lattix r m
      both_styles_reads_then_writes [OF module_init_lattix r m, of world_lattix]
    by simp
qed

end
